theory Spec2Isabelle
  imports Complex_Main
begin

section \<open>Data model\<close>

text \<open>
  The simulation core is the class \<open>TrafficModel\<close>. JavaScript numbers are modelled as
  follows: quantities that are physical measurements (positions, speeds, times) are
  \<^typ>\<open>real\<close>; lane indices, identifiers and the indicator state are \<^typ>\<open>int\<close>.
  The value \<open>Infinity\<close> is never stored in a real: wherever the source uses it (the running
  minimum of the neighbour queries, the entry clearance of an empty lane, the mean headway of
  a zero inflow) the model writes the case out. Rounding, \<open>NaN\<close> and signed zeros are
  not modelled.

  Field names follow \<open>types.ts\<close> except where a one-letter name would capture a variable:
  \<open>id\<close> is \<open>vid\<close>, \<open>x\<close> is \<open>px\<close>, \<open>y\<close> is \<open>py\<close>, \<open>v\<close> is \<open>speed\<close>,
  \<open>a\<close> is \<open>accel\<close>, \<open>length\<close> is \<open>len\<close>, \<open>type\<close> is \<open>vtype\<close>.
  The dynamically attached flag \<open>(veh as any).isCrashed\<close> is a field of the record;
  it is absent (falsy) on a freshly spawned vehicle, hence \<open>False\<close>.
\<close>

datatype VehicleType = CAR | TRUCK

record Vehicle =
  vid :: int
  px :: real
  py :: real
  lane :: int
  speed :: real
  accel :: real
  len :: real
  width :: real
  color :: string
  vtype :: VehicleType
  laneChangeTimer :: real
  laneChangeDirection :: int
  targetSpeed :: real
  isCrashed :: bool

record SimulationConfig =
  inflowRate :: real
  timeScale :: real
  truckRatio :: real
  isPaused :: bool
  configRoadLength :: real
  politeness :: real
  safeTimeGap :: real
  maxAccel :: real
  accelerationNoise :: real

record FdPoint =
  fd_k :: real
  fd_q :: real

record SimulationStats =
  count :: nat
  avgSpeed :: real
  density :: real
  flow :: real
  points :: "FdPoint list"

text \<open>
  The fields of \<open>TrafficModel\<close>. The last field, \<open>draws\<close>, is not a field of the class:
  it is the state of the ambient random source, the number of \<open>Math.random()\<close> calls made
  so far. The values those calls return are a parameter \<open>rng :: nat \<Rightarrow> real\<close> of every
  function that draws: the \<open>n\<close>-th call returns \<open>rng n\<close>.
\<close>

record TrafficModel =
  vehicles :: "Vehicle list"
  roadLength :: real
  lanes :: int
  nextId :: int
  timeSinceLastSpawn :: real
  fdPoints :: "FdPoint list"
  statsTimer :: real
  blockedLane :: "int option"
  blockedLocation :: "real option"
  draws :: nat

subsection \<open>Physics constants\<close>

definition DT :: real where "DT = 1 / 60"
definition IDM_DELTA :: nat where "IDM_DELTA = 4"
definition JAM_DISTANCE :: real where "JAM_DISTANCE = 2"
definition COMFORT_DECEL :: real where "COMFORT_DECEL = 2"
definition MOBIL_THRESHOLD :: real where "MOBIL_THRESHOLD = 1 / 10"
definition MOBIL_BIAS :: real where "MOBIL_BIAS = 2 / 10"

subsection \<open>Construction and reset\<close>

definition newTrafficModel :: "real \<Rightarrow> TrafficModel" where
  "newTrafficModel rl =
     \<lparr> vehicles = [], roadLength = rl, lanes = 3, nextId = 1, timeSinceLastSpawn = 0,
       fdPoints = [], statsTimer = 0, blockedLane = None, blockedLocation = None,
       draws = 0 \<rparr>"

definition reset :: "TrafficModel \<Rightarrow> TrafficModel" where
  "reset m =
     m\<lparr> vehicles := [], nextId := 1, timeSinceLastSpawn := 0,
        blockedLane := None, blockedLocation := None, fdPoints := [] \<rparr>"

section \<open>Neighbour queries\<close>

text \<open>
  \<open>getLeader\<close> and \<open>getFollower\<close> scan \<open>this.vehicles\<close> in list order with two
  variables, \<open>minDist\<close> (initially \<open>Infinity\<close>) and the best vehicle (initially \<open>null\<close>);
  both are assigned together, so the loop state is \<open>None\<close> before the first hit and
  \<open>Some (minDist, vehicle)\<close> after it. A finite \<open>dist\<close> is always below \<open>Infinity\<close>.
\<close>

fun leaderLoop ::
  "Vehicle \<Rightarrow> int \<Rightarrow> Vehicle list \<Rightarrow> (real \<times> Vehicle) option \<Rightarrow> (real \<times> Vehicle) option"
where
  "leaderLoop vehicle targetLane [] best = best"
| "leaderLoop vehicle targetLane (other # rest) best =
     (if vid other = vid vehicle then leaderLoop vehicle targetLane rest best
      else if lane other \<noteq> targetLane then leaderLoop vehicle targetLane rest best
      else
        (let dist = px other - px vehicle in
         if dist > 0 \<and> (case best of None \<Rightarrow> True | Some (minDist, _) \<Rightarrow> dist < minDist)
         then leaderLoop vehicle targetLane rest (Some (dist, other))
         else leaderLoop vehicle targetLane rest best))"

definition getLeader :: "TrafficModel \<Rightarrow> Vehicle \<Rightarrow> int \<Rightarrow> Vehicle option" where
  "getLeader m vehicle targetLane =
     map_option snd (leaderLoop vehicle targetLane (vehicles m) None)"

fun followerLoop ::
  "Vehicle \<Rightarrow> int \<Rightarrow> Vehicle list \<Rightarrow> (real \<times> Vehicle) option \<Rightarrow> (real \<times> Vehicle) option"
where
  "followerLoop vehicle targetLane [] best = best"
| "followerLoop vehicle targetLane (other # rest) best =
     (if vid other = vid vehicle then followerLoop vehicle targetLane rest best
      else if lane other \<noteq> targetLane then followerLoop vehicle targetLane rest best
      else
        (let dist = px vehicle - px other in
         if dist > 0 \<and> (case best of None \<Rightarrow> True | Some (minDist, _) \<Rightarrow> dist < minDist)
         then followerLoop vehicle targetLane rest (Some (dist, other))
         else followerLoop vehicle targetLane rest best))"

definition getFollower :: "TrafficModel \<Rightarrow> Vehicle \<Rightarrow> int \<Rightarrow> Vehicle option" where
  "getFollower m vehicle targetLane =
     map_option snd (followerLoop vehicle targetLane (vehicles m) None)"

section \<open>Intelligent Driver Model\<close>

text \<open>
  \<open>calculateAcceleration(v, vLeader, gap, desiredSpeed, config)\<close>; a \<open>null\<close> argument is
  \<open>None\<close>. \<open>Math.pow\<close> with the integer exponents 4 and 2 is the power of a real.
  The desired gap \<open>s_star\<close> (line 111) is a definition of its own, \<open>sStar\<close>.
\<close>

definition sStar :: "real \<Rightarrow> real \<Rightarrow> SimulationConfig \<Rightarrow> real" where
  "sStar v vl config =
     (let delta_v = v - vl in
      JAM_DISTANCE + v * safeTimeGap config
      + (v * delta_v) / (2 * sqrt (maxAccel config * COMFORT_DECEL)))"

definition calculateAcceleration ::
  "real \<Rightarrow> real option \<Rightarrow> real option \<Rightarrow> real \<Rightarrow> SimulationConfig \<Rightarrow> real"
where
  "calculateAcceleration v vLeader gap desiredSpeed config =
     (let a_free = maxAccel config * (1 - (v / desiredSpeed) ^ IDM_DELTA) in
      case gap of
        None \<Rightarrow> a_free
      | Some g \<Rightarrow>
         (case vLeader of
            None \<Rightarrow> a_free
          | Some vl \<Rightarrow>
             (let s_star = sStar v vl config;
                  effectiveGap = max (1 / 10) g;
                  a_int = - maxAccel config * (s_star / effectiveGap) ^ 2
              in a_free + a_int)))"

section \<open>Incident injection\<close>

text \<open>
  \<open>Array.prototype.find\<close> returns the first element that satisfies the predicate. The
  element is an object of the array and is mutated in place, so the model looks for its
  index and updates the list there. The callback handed to \<open>setTimeout\<close> runs on the
  host's wall clock and is not part of this function's effect on the model.
\<close>

definition accidentCandidate :: "Vehicle \<Rightarrow> bool" where
  "accidentCandidate veh = (lane veh = 1 \<and> px veh > 1000 \<and> px veh < 4000)"

fun findIndex :: "('a \<Rightarrow> bool) \<Rightarrow> 'a list \<Rightarrow> nat option" where
  "findIndex P [] = None"
| "findIndex P (e # es) = (if P e then Some 0 else map_option Suc (findIndex P es))"

definition triggerAccident :: "TrafficModel \<Rightarrow> TrafficModel" where
  "triggerAccident m =
     (case findIndex accidentCandidate (vehicles m) of
        None \<Rightarrow> m
      | Some i \<Rightarrow>
         (let candidate = vehicles m ! i in
          m\<lparr> vehicles :=
               (vehicles m)[i := candidate\<lparr> speed := 0, color := ''#ef4444'',
                                             isCrashed := True \<rparr>],
             blockedLane := Some (lane candidate),
             blockedLocation := Some (px candidate) \<rparr>))"

section \<open>MOBIL lane change\<close>

text \<open>
  \<open>checkLaneChange(veh, accCurrent, config)\<close> mutates \<open>veh\<close> only when it commits a
  change, and returns right after; the model returns the vehicle as it is after the call.
  The three parts of the loop body are named: the candidate list (lines 200 to 202), the
  safety test of the new follower (lines 211 to 217) and the incentive (lines 219 to 250).
\<close>

definition laneCandidates :: "TrafficModel \<Rightarrow> Vehicle \<Rightarrow> int list" where
  "laneCandidates m veh =
     (if lane veh > 0 then [lane veh - 1] else [])
     @ (if lane veh < lanes m - 1 then [lane veh + 1] else [])"

definition tooDangerous ::
  "TrafficModel \<Rightarrow> Vehicle \<Rightarrow> SimulationConfig \<Rightarrow> int \<Rightarrow> bool"
where
  "tooDangerous m veh config targetLane =
     (case getFollower m veh targetLane of
        None \<Rightarrow> False
      | Some newFollower \<Rightarrow>
         (let gapBack = px veh - px newFollower - len veh;
              accFollowerNew =
                calculateAcceleration (speed newFollower) (Some (speed veh)) (Some gapBack)
                  (targetSpeed newFollower) config
          in accFollowerNew < - 3))"

definition totalIncentive ::
  "TrafficModel \<Rightarrow> Vehicle \<Rightarrow> real \<Rightarrow> SimulationConfig \<Rightarrow> int \<Rightarrow> real"
where
  "totalIncentive m veh accCurrent config targetLane =
     (let newLeader = getLeader m veh targetLane;
          oldFollower = getFollower m veh (lane veh);
          gapNew = map_option (\<lambda>l. px l - px veh - len l) newLeader;
          vNewLeader = map_option speed newLeader;
          accNew = calculateAcceleration (speed veh) vNewLeader gapNew (targetSpeed veh) config;
          egoBenefit = accNew - accCurrent;
          politenessTerm =
            (case oldFollower of
               None \<Rightarrow> 0
             | Some f \<Rightarrow>
                (let gapOld = px veh - px f - len veh;
                     accOldFollowerCurr =
                       calculateAcceleration (speed f) (Some (speed veh)) (Some gapOld)
                         (targetSpeed f) config;
                     myLeader = getLeader m veh (lane veh);
                     gapOldFuture = map_option (\<lambda>l. px l - px f - len l) myLeader;
                     vMyLeader = map_option speed myLeader;
                     accOldFollowerNew =
                       calculateAcceleration (speed f) vMyLeader gapOldFuture
                         (targetSpeed f) config
                 in accOldFollowerNew - accOldFollowerCurr));
          t0 = egoBenefit + politeness config * politenessTerm;
          t1 = (if targetLane > lane veh then t0 + MOBIL_BIAS else t0);
          t2 = (if targetLane < lane veh then t1 - MOBIL_BIAS else t1)
      in t2)"

fun candidateLoop ::
  "TrafficModel \<Rightarrow> Vehicle \<Rightarrow> real \<Rightarrow> SimulationConfig \<Rightarrow> int list \<Rightarrow> Vehicle"
where
  "candidateLoop m veh accCurrent config [] = veh"
| "candidateLoop m veh accCurrent config (targetLane # rest) =
     (if tooDangerous m veh config targetLane
      then candidateLoop m veh accCurrent config rest
      else if totalIncentive m veh accCurrent config targetLane > MOBIL_THRESHOLD
      then veh\<lparr> lane := targetLane, laneChangeTimer := 3,
                laneChangeDirection := (if real_of_int targetLane > py veh then 1 else - 1) \<rparr>
      else candidateLoop m veh accCurrent config rest)"

definition checkLaneChange ::
  "TrafficModel \<Rightarrow> Vehicle \<Rightarrow> real \<Rightarrow> SimulationConfig \<Rightarrow> Vehicle"
where
  "checkLaneChange m veh accCurrent config =
     candidateLoop m veh accCurrent config (laneCandidates m veh)"

section \<open>Spawning\<close>

definition getCarColor :: "real \<Rightarrow> string" where
  "getCarColor tSpeed =
     (if tSpeed > 32 then ''#06b6d4'' else if tSpeed > 28 then ''#10b981'' else ''#f59e0b'')"

text \<open>
  \<open>spawnVehicle\<close> draws twice: the type, then the desired speed (only one of the two
  \<open>Math.random()\<close> calls of the conditional expression is evaluated). \<open>newVehicle\<close> is
  the object that it pushes (lines 290 to 309); the parameter \<open>config\<close> is unused in the
  source as well.
\<close>

definition newVehicle :: "(nat \<Rightarrow> real) \<Rightarrow> int \<Rightarrow> real \<Rightarrow> TrafficModel \<Rightarrow> Vehicle" where
  "newVehicle rng l tRatio m =
     (let isTruck = rng (draws m) < tRatio;
          r = rng (draws m + 1);
          speedKmH = (if isTruck then 85 + (r - 1 / 2) * 10 else 110 + (r - 1 / 2) * 20);
          tSpeed = speedKmH / (36 / 10)
      in \<lparr> vid = nextId m, px = 0, py = real_of_int l, lane = l,
           speed = tSpeed * (9 / 10), accel = 0,
           len = (if isTruck then 14 else 45 / 10),
           width = (if isTruck then 26 / 10 else 2),
           color = (if isTruck then ''#a78bfa'' else getCarColor tSpeed),
           vtype = (if isTruck then TRUCK else CAR),
           laneChangeTimer = 0, laneChangeDirection = 0,
           targetSpeed = tSpeed, isCrashed = False \<rparr>)"

definition spawnVehicle ::
  "(nat \<Rightarrow> real) \<Rightarrow> int \<Rightarrow> real \<Rightarrow> SimulationConfig \<Rightarrow> TrafficModel \<Rightarrow> TrafficModel"
where
  "spawnVehicle rng l tRatio config m =
     m\<lparr> vehicles := vehicles m @ [newVehicle rng l tRatio m],
        nextId := nextId m + 1,
        draws := draws m + 2 \<rparr>"

text \<open>
  \<open>lastPos[l]\<close> is the \<open>x\<close> of the vehicle that the \<open>reduce\<close> keeps for lane \<open>l\<close>, or
  \<open>Infinity\<close> (here \<open>None\<close>) for an empty lane. \<open>gtInf\<close> is the greater-than test on such values.
\<close>

definition lastPos :: "Vehicle list \<Rightarrow> int \<Rightarrow> real option" where
  "lastPos vs l =
     map_option px
       (foldl (\<lambda>prev curr.
                 case prev of
                   None \<Rightarrow> Some curr
                 | Some p \<Rightarrow> (if px p < px curr then Some p else Some curr))
          None (filter (\<lambda>veh. lane veh = l) vs))"

definition gtInf :: "real option \<Rightarrow> real option \<Rightarrow> bool" where
  "gtInf a b =
     (case b of
        None \<Rightarrow> False
      | Some y \<Rightarrow> (case a of None \<Rightarrow> True | Some x \<Rightarrow> x > y))"

definition bestLane :: "Vehicle list \<Rightarrow> int" where
  "bestLane vs =
     foldl (\<lambda>i j. if gtInf (lastPos vs i) (lastPos vs j) then i else j) 0 [1, 2]"

definition clearEntry :: "Vehicle list \<Rightarrow> bool" where
  "clearEntry vs = gtInf (lastPos vs (bestLane vs)) (Some 40)"

text \<open>
  The arrival test \<open>timeSinceLastSpawn > (Math.random() * 0.4 + 0.8) * avgInterarrivalTime\<close>
  always draws. With a zero inflow the mean headway is \<open>1 / 0 = Infinity\<close>, and the product
  with the factor \<open>u\<close> is \<open>Infinity\<close>, \<open>NaN\<close> or \<open>-Infinity\<close> as \<open>u\<close> is positive, zero or
  negative: the comparison holds only in the last case. \<open>spawnDue\<close> is that test (line
  269), on the model as it is when \<open>handleSpawning\<close> is entered.
\<close>

definition spawnDue ::
  "(nat \<Rightarrow> real) \<Rightarrow> real \<Rightarrow> SimulationConfig \<Rightarrow> TrafficModel \<Rightarrow> bool"
where
  "spawnDue rng dt config m =
     (let spawnRatePerSec = inflowRate config / 3600;
          u = rng (draws m) * (4 / 10) + 8 / 10
      in if spawnRatePerSec = 0 then u < 0
         else timeSinceLastSpawn m + dt > u * (1 / spawnRatePerSec))"

definition handleSpawning ::
  "(nat \<Rightarrow> real) \<Rightarrow> real \<Rightarrow> SimulationConfig \<Rightarrow> TrafficModel \<Rightarrow> TrafficModel"
where
  "handleSpawning rng dt config m =
     (let m1 = m\<lparr> timeSinceLastSpawn := timeSinceLastSpawn m + dt,
                  draws := draws m + 1 \<rparr>
      in if spawnDue rng dt config m
         then (if clearEntry (vehicles m1)
               then (spawnVehicle rng (bestLane (vehicles m1)) (truckRatio config) config m1)
                      \<lparr> timeSinceLastSpawn := 0 \<rparr>
               else m1)
         else m1)"

section \<open>Statistics\<close>

definition getStats :: "TrafficModel \<Rightarrow> SimulationStats" where
  "getStats m =
     (let n = length (vehicles m) in
      if n = 0
      then \<lparr> count = 0, avgSpeed = 0, density = 0, flow = 0, points = fdPoints m \<rparr>
      else
        (let totalV = foldl (\<lambda>sum veh. sum + speed veh) 0 (vehicles m);
             avgV = (totalV / real n) * (36 / 10);
             dens = real n / (roadLength m / 1000);
             fl = dens * avgV
         in \<lparr> count = n, avgSpeed = avgV, density = dens, flow = fl,
              points = fdPoints m \<rparr>))"

definition collectStats :: "real \<Rightarrow> TrafficModel \<Rightarrow> TrafficModel" where
  "collectStats dt m =
     (let m1 = m\<lparr> statsTimer := statsTimer m + dt \<rparr> in
      if statsTimer m1 > 1
      then
        (let stats = getStats m1;
             m2 = (if count stats > 0
                   then (let pts = fdPoints m1 @ [\<lparr> fd_k = density stats, fd_q = flow stats \<rparr>]
                         in m1\<lparr> fdPoints := (if length pts > 200 then tl pts else pts) \<rparr>)
                   else m1)
         in m2\<lparr> statsTimer := 0 \<rparr>)
      else m1)"

section \<open>The simulation step\<close>

text \<open>
  Phase 1 (lines 127 to 155) visits the vehicles in list order and mutates each in place,
  so a later vehicle's neighbour queries see the lanes and speeds already written for the
  earlier ones: \<open>decideVehicle\<close> is the loop body for the vehicle at index \<open>i\<close>.
  \<open>accCurrentOf\<close> is the value of \<open>accCurrent\<close> (lines 134 to 145): the IDM acceleration
  behind the current leader, plus the noise term when \<open>perceivesNoise\<close> (the test of line
  143) holds, in which case one random number is drawn.
\<close>

definition perceivesNoise :: "SimulationConfig \<Rightarrow> Vehicle \<Rightarrow> bool" where
  "perceivesNoise config veh = (accelerationNoise config > 0 \<and> speed veh > 1)"

definition accCurrentOf ::
  "(nat \<Rightarrow> real) \<Rightarrow> SimulationConfig \<Rightarrow> TrafficModel \<Rightarrow> Vehicle \<Rightarrow> real"
where
  "accCurrentOf rng config m veh =
     (let leader = getLeader m veh (lane veh);
          gap = map_option (\<lambda>l. px l - px veh - len l) leader;
          vLeader = map_option speed leader;
          acc0 = calculateAcceleration (speed veh) vLeader gap (targetSpeed veh) config
      in if perceivesNoise config veh
         then acc0 + (rng (draws m) - 1 / 2) * accelerationNoise config
         else acc0)"

definition decideVehicle ::
  "(nat \<Rightarrow> real) \<Rightarrow> SimulationConfig \<Rightarrow> real \<Rightarrow> TrafficModel \<Rightarrow> nat \<Rightarrow> TrafficModel"
where
  "decideVehicle rng config dt m i =
     (let veh = vehicles m ! i in
      if isCrashed veh
      then m\<lparr> vehicles := (vehicles m)[i := veh\<lparr> accel := 0, speed := 0 \<rparr>] \<rparr>
      else
        (let accCurrent = accCurrentOf rng config m veh;
             m1 = (if perceivesNoise config veh then m\<lparr> draws := draws m + 1 \<rparr> else m);
             veh1 = veh\<lparr> accel := accCurrent \<rparr>;
             m2 = m1\<lparr> vehicles := (vehicles m1)[i := veh1] \<rparr>;
             veh2 =
               (if laneChangeTimer veh1 \<le> 0 then checkLaneChange m2 veh1 accCurrent config
                else veh1\<lparr> laneChangeTimer := laneChangeTimer veh1 - dt \<rparr>)
         in m2\<lparr> vehicles := (vehicles m2)[i := veh2] \<rparr>))"

definition decidePhase ::
  "(nat \<Rightarrow> real) \<Rightarrow> SimulationConfig \<Rightarrow> real \<Rightarrow> TrafficModel \<Rightarrow> TrafficModel"
where
  "decidePhase rng config dt m =
     foldl (decideVehicle rng config dt) m [0..<length (vehicles m)]"

text \<open>
  Phase 2 (lines 158 to 179) runs the index from the end of the array down to 0 and
  removes a despawned vehicle with \<open>splice(i, 1)\<close>. The third argument of
  \<open>integrateLoop\<close> is the number of indices still to visit: \<open>Suc i\<close> visits index \<open>i\<close>.
\<close>

definition integrateVehicle :: "real \<Rightarrow> Vehicle \<Rightarrow> Vehicle" where
  "integrateVehicle dt veh =
     (let v1 = speed veh + accel veh * dt;
          v2 = (if v1 < 0 then 0 else v1);
          x2 = px veh + v2 * dt;
          veh1 = veh\<lparr> speed := v2, px := x2 \<rparr>
      in if \<bar>py veh - real_of_int (lane veh)\<bar> > 5 / 100
         then veh1\<lparr> py := py veh + sgn (real_of_int (lane veh) - py veh) * (25 / 10) * dt \<rparr>
         else veh1\<lparr> py := real_of_int (lane veh), laneChangeDirection := 0 \<rparr>)"

fun integrateLoop :: "real \<Rightarrow> real \<Rightarrow> nat \<Rightarrow> Vehicle list \<Rightarrow> Vehicle list" where
  "integrateLoop dt rl 0 vs = vs"
| "integrateLoop dt rl (Suc i) vs =
     (let veh = integrateVehicle dt (vs ! i);
          vs1 = vs[i := veh];
          vs2 = (if px veh > rl then take i vs1 @ drop (Suc i) vs1 else vs1)
      in integrateLoop dt rl i vs2)"

definition integratePhase :: "real \<Rightarrow> TrafficModel \<Rightarrow> TrafficModel" where
  "integratePhase dt m =
     m\<lparr> vehicles := integrateLoop dt (roadLength m) (length (vehicles m)) (vehicles m) \<rparr>"

text \<open>
  \<open>Array.prototype.sort\<close> is stable, and the comparator \<open>b.x - a.x\<close> orders by \<open>x\<close>
  descending; \<open>sort_key\<close> is a stable sort, ascending in its key.
\<close>

definition sortPhase :: "TrafficModel \<Rightarrow> TrafficModel" where
  "sortPhase m = m\<lparr> vehicles := sort_key (\<lambda>veh. - px veh) (vehicles m) \<rparr>"

definition step :: "(nat \<Rightarrow> real) \<Rightarrow> SimulationConfig \<Rightarrow> TrafficModel \<Rightarrow> TrafficModel" where
  "step rng config m =
     (let dt = DT * timeScale config in
      collectStats dt
        (handleSpawning rng dt config
           (integratePhase dt
              (decidePhase rng config dt
                 (sortPhase m)))))"

text \<open>A run: one \<open>step\<close> call per configuration of the list, in order.\<close>

definition run :: "(nat \<Rightarrow> real) \<Rightarrow> SimulationConfig list \<Rightarrow> TrafficModel \<Rightarrow> TrafficModel" where
  "run rng configs m = foldl (\<lambda>s config. step rng config s) m configs"

section \<open>Reference definitions\<close>

text \<open>
  The definitions of this section are not translations of source functions: they state
  what a claim says, for comparison with the code.
\<close>

subsection \<open>Nearest neighbour\<close>

text \<open>
  The element of a list of candidates with the smallest value of \<open>f\<close>, or nothing for an
  empty list. Among several candidates with that smallest value, \<open>arg_min_list\<close> returns
  the one that comes first in the list.
\<close>

definition nearestBy :: "(Vehicle \<Rightarrow> real) \<Rightarrow> Vehicle list \<Rightarrow> Vehicle option" where
  "nearestBy f cs = (if cs = [] then None else Some (arg_min_list f cs))"

text \<open>The update of the running minimum that both neighbour loops perform on a candidate.\<close>

definition pickNearer ::
  "(Vehicle \<Rightarrow> real) \<Rightarrow> (real \<times> Vehicle) option \<Rightarrow> Vehicle \<Rightarrow> (real \<times> Vehicle) option"
where
  "pickNearer f best c =
     (if (case best of None \<Rightarrow> True | Some (minDist, _) \<Rightarrow> f c < minDist)
      then Some (f c, c) else best)"

subsection \<open>The lane-change criterion\<close>

text \<open>
  The MOBIL decision in the words of the specification: the candidate lanes
  \<open>lane - 1\<close>, \<open>lane + 1\<close> within \<open>[0, 2]\<close>; the safety criterion (no new follower, or
  a new follower whose IDM acceleration behind the subject is at least \<open>-3\<close>); the subject's
  acceleration \<open>a_c_new\<close> in the target lane; the old follower's gain \<open>Delta_o\<close> (0
  without an old follower); the bias; and the acceptance test of a candidate.
\<close>

definition specCandidates :: "Vehicle \<Rightarrow> int list" where
  "specCandidates veh = filter (\<lambda>l. 0 \<le> l \<and> l \<le> 2) [lane veh - 1, lane veh + 1]"

definition specSafe :: "TrafficModel \<Rightarrow> Vehicle \<Rightarrow> SimulationConfig \<Rightarrow> int \<Rightarrow> bool" where
  "specSafe m veh config l =
     (case getFollower m veh l of
        None \<Rightarrow> True
      | Some newFollower \<Rightarrow>
          calculateAcceleration (speed newFollower) (Some (speed veh))
            (Some (px veh - px newFollower - len veh)) (targetSpeed newFollower) config
          \<ge> - 3)"

definition specAccNew :: "TrafficModel \<Rightarrow> Vehicle \<Rightarrow> SimulationConfig \<Rightarrow> int \<Rightarrow> real" where
  "specAccNew m veh config l =
     (case getLeader m veh l of
        None \<Rightarrow> calculateAcceleration (speed veh) None None (targetSpeed veh) config
      | Some newLeader \<Rightarrow>
          calculateAcceleration (speed veh) (Some (speed newLeader))
            (Some (px newLeader - px veh - len newLeader)) (targetSpeed veh) config)"

definition specDeltaOld :: "TrafficModel \<Rightarrow> Vehicle \<Rightarrow> SimulationConfig \<Rightarrow> real" where
  "specDeltaOld m veh config =
     (case getFollower m veh (lane veh) of
        None \<Rightarrow> 0
      | Some f \<Rightarrow>
          (case getLeader m veh (lane veh) of
             None \<Rightarrow> calculateAcceleration (speed f) None None (targetSpeed f) config
           | Some myLeader \<Rightarrow>
               calculateAcceleration (speed f) (Some (speed myLeader))
                 (Some (px myLeader - px f - len myLeader)) (targetSpeed f) config)
          - calculateAcceleration (speed f) (Some (speed veh))
              (Some (px veh - px f - len veh)) (targetSpeed f) config)"

definition specBias :: "Vehicle \<Rightarrow> int \<Rightarrow> real" where
  "specBias veh l = (if l > lane veh then 2 / 10 else - (2 / 10))"

definition specAccepts ::
  "TrafficModel \<Rightarrow> Vehicle \<Rightarrow> real \<Rightarrow> SimulationConfig \<Rightarrow> int \<Rightarrow> bool"
where
  "specAccepts m veh a_c config l =
     (specSafe m veh config l
      \<and> (specAccNew m veh config l - a_c) + politeness config * specDeltaOld m veh config
          + specBias veh l > 1 / 10)"

subsection \<open>The lateral coordinate during a run\<close>

text \<open>
  \<open>nearLane\<close> describes where the lateral coordinate \<open>y\<close> of a vehicle stands between two
  steps: within a quarter lane of its lane, or, during the cooldown that follows a lane
  change, no farther from the new lane than the 2.5 lanes per second of the interpolation
  have yet to cover. \<open>nearLaneDecided\<close> is the same between the decision phase and the
  integration of a step of length \<open>dt\<close>. \<open>specSign\<close> is the sign of a number as an
  integer, the value of \<open>Math.sign\<close>.
\<close>

definition nearLane :: "Vehicle \<Rightarrow> bool" where
  "nearLane veh =
     (\<bar>py veh - real_of_int (lane veh)\<bar> \<le> 1 / 4
      \<or> (0 < laneChangeTimer veh
          \<and> \<bar>py veh - real_of_int (lane veh)\<bar>
              \<le> 5 / 4 - (25 / 10) * (3 - laneChangeTimer veh)))"

definition nearLaneDecided :: "real \<Rightarrow> Vehicle \<Rightarrow> bool" where
  "nearLaneDecided dt veh =
     (\<bar>py veh - real_of_int (lane veh)\<bar> \<le> 1 / 4
      \<or> (- dt < laneChangeTimer veh
          \<and> \<bar>py veh - real_of_int (lane veh)\<bar>
              \<le> 5 / 4 - (25 / 10) * (3 - laneChangeTimer veh) + (25 / 10) * dt))"

definition specSign :: "real \<Rightarrow> int" where
  "specSign r = (if 0 < r then 1 else if r < 0 then - 1 else 0)"

subsection \<open>Results of the decision phase\<close>

text \<open>The vehicle that the loop body of phase 1 leaves at index \<open>i\<close>.\<close>

definition decided ::
  "(nat \<Rightarrow> real) \<Rightarrow> SimulationConfig \<Rightarrow> real \<Rightarrow> TrafficModel \<Rightarrow> nat \<Rightarrow> Vehicle"
where
  "decided rng config dt m i = vehicles (decideVehicle rng config dt m i) ! i"

subsection \<open>Example states\<close>

text \<open>
  \<open>carAt i x l v\<close> is a car as \<open>spawnVehicle\<close> creates it (desired speed 30 m/s), with
  identifier \<open>i\<close>, at position \<open>x\<close> in lane \<open>l\<close>, at speed \<open>v\<close>. \<open>roadWith vs\<close> is a
  freshly constructed 5000 m road that holds the vehicles \<open>vs\<close>. \<open>baseline\<close> is the
  default configuration of the application, without acceleration noise and with
  \<open>maxAccel = 2\<close>.
\<close>

definition carAt :: "int \<Rightarrow> real \<Rightarrow> int \<Rightarrow> real \<Rightarrow> Vehicle" where
  "carAt i x l v =
     \<lparr> vid = i, px = x, py = real_of_int l, lane = l, speed = v, accel = 0,
       len = 45 / 10, width = 2, color = ''#10b981'', vtype = CAR,
       laneChangeTimer = 0, laneChangeDirection = 0, targetSpeed = 30, isCrashed = False \<rparr>"

definition roadWith :: "Vehicle list \<Rightarrow> TrafficModel" where
  "roadWith vs = (newTrafficModel 5000)\<lparr> vehicles := vs \<rparr>"

definition baseline :: SimulationConfig where
  "baseline =
     \<lparr> inflowRate = 2000, timeScale = 1, truckRatio = 15 / 100, isPaused = False,
       configRoadLength = 5000, politeness = 2 / 10, safeTimeGap = 3 / 2, maxAccel = 2,
       accelerationNoise = 0 \<rparr>"

text \<open>
  Four cars on the road, sorted by position: the car with identifier 3 has car 1 ahead and
  car 4 behind in lane 0, and car 2 ahead in lane 1.
\<close>

definition exRoad :: TrafficModel where
  "exRoad = roadWith [carAt 1 50 0 20, carAt 2 30 1 20, carAt 3 10 0 20, carAt 4 5 0 20]"

text \<open>
  Two cars at the same position in the same lane, ahead of car 3; the one with the larger
  identifier comes first in the vehicle list.
\<close>

definition tieRoad :: TrafficModel where
  "tieRoad = roadWith [carAt 2 10 0 20, carAt 1 10 0 20, carAt 3 0 0 20]"

text \<open>
  A crashed car stands 0.5 m ahead of the subject in lane 1: the subject \<open>veh\<close> (identifier
  2, at \<open>x = 0\<close>, stopped) has the IDM acceleration \<open>-30\<close> and gains from leaving the lane.
\<close>

definition jamRoad :: "Vehicle \<Rightarrow> TrafficModel" where
  "jamRoad veh = roadWith [(carAt 1 5 1 0)\<lparr> isCrashed := True \<rparr>, veh]"

text \<open>
  An active incident: car 1 is crashed at \<open>x = 2000\<close> in lane 1 and recorded as the
  blockage; car 2 drives in lane 1 ahead of it and comes first in the list.
\<close>

definition incidentRoad :: TrafficModel where
  "incidentRoad =
     (roadWith [carAt 2 3000 1 25,
                (carAt 1 2000 1 0)\<lparr> color := ''#ef4444'', isCrashed := True \<rparr>])
       \<lparr> blockedLane := Some 1, blockedLocation := Some 2000 \<rparr>"

text \<open>
  The same incident with car 2 behind the crashed car: the crashed car is the first
  vehicle of the list on lane 1 with \<open>1000 < x < 4000\<close>.
\<close>

definition incidentFirst :: TrafficModel where
  "incidentFirst =
     (roadWith [(carAt 1 2000 1 0)\<lparr> color := ''#ef4444'', isCrashed := True \<rparr>,
                carAt 2 1500 1 25])
       \<lparr> blockedLane := Some 1, blockedLocation := Some 2000 \<rparr>"

text \<open>
  A configuration within the ranges of the control panel (inflow 3000 veh/h, time scale
  4.9), and a road whose \<open>statsTimer\<close> stands at 0.03 s.
\<close>

definition fastInflow :: SimulationConfig where
  "fastInflow = baseline\<lparr> inflowRate := 3000, timeScale := 49 / 10 \<rparr>"

definition staleRoad :: TrafficModel where
  "staleRoad = (roadWith [carAt 1 100 0 25])\<lparr> statsTimer := 3 / 100 \<rparr>"

text \<open>
  A car that has just changed lane (cooldown 3 s) and drives at its desired speed on an
  otherwise empty road, and a configuration within the ranges of the control panel
  (inflow 500 veh/h, time scale 4.8, so that a step is 0.08 s).
\<close>

definition slowInflow :: SimulationConfig where
  "slowInflow = baseline\<lparr> inflowRate := 500, timeScale := 48 / 10 \<rparr>"

definition coolingRoad :: TrafficModel where
  "coolingRoad = roadWith [(carAt 1 0 0 30)\<lparr> laneChangeTimer := 3 \<rparr>]"

text \<open>
  Two roads on which an arrival is due (2 s since the last spawn): on the first, lane 2 is
  empty; on the second, every lane has a vehicle within 40 m of the entry.
\<close>

definition entryClear :: TrafficModel where
  "entryClear = exRoad\<lparr> timeSinceLastSpawn := 2 \<rparr>"

definition entryBlocked :: TrafficModel where
  "entryBlocked =
     (roadWith [carAt 1 30 0 20, carAt 2 20 1 20, carAt 3 10 2 20])
       \<lparr> timeSinceLastSpawn := 2 \<rparr>"

section \<open>The IDM formula\<close>

text \<open>
  Claim C2. \<open>calculateAcceleration\<close> returns \<open>a_max (1 - (v/v0)^4)\<close> when the leader speed or
  the gap is absent, and otherwise that free term minus \<open>a_max (s* / max(gap, 0.1))^2\<close> with
  \<open>s* = 2 + v T + v (v - vLeader) / (2 sqrt(a_max 2.0))\<close>, \<open>T = config.safeTimeGap\<close> and
  \<open>a_max = config.maxAccel\<close>. The result is a function of the five arguments alone.
\<close>

theorem calculateAcceleration_formula:
  "calculateAcceleration v None gap v0 config = maxAccel config * (1 - (v / v0) ^ 4)
   \<and> calculateAcceleration v vLeader None v0 config = maxAccel config * (1 - (v / v0) ^ 4)
   \<and> calculateAcceleration v (Some vl) (Some g) v0 config =
       maxAccel config * (1 - (v / v0) ^ 4)
       - maxAccel config *
           ((2 + v * safeTimeGap config + v * (v - vl) / (2 * sqrt (maxAccel config * 2)))
            / max g (1 / 10)) ^ 2"
  by (simp add: calculateAcceleration_def sStar_def IDM_DELTA_def JAM_DISTANCE_def COMFORT_DECEL_def
      Let_def max.commute split: option.splits)


section \<open>Laws of the IDM\<close>

text \<open>
  Claim C9. For every desired speed \<open>v0 > 0\<close> and every configuration, the acceleration
  of a vehicle that drives at \<open>v0\<close> with no leader and no gap is 0. Whenever the gap equals
  the desired gap \<open>s*\<close> that the function computes and is at least 0.1, the interaction
  term is \<open>- a_max\<close>: the function returns the free term minus \<open>a_max\<close>.
\<close>

theorem idm_laws:
  "(0 < v0 \<longrightarrow> calculateAcceleration v0 None None v0 config = 0)
   \<and> (g = sStar v vl config \<and> 1 / 10 \<le> g \<longrightarrow>
        calculateAcceleration v (Some vl) (Some g) d config
        = maxAccel config * (1 - (v / d) ^ 4) - maxAccel config)"
  by (auto simp add: calculateAcceleration_def IDM_DELTA_def Let_def max_def)

theorem idm_laws_witness:
  "(0::real) < 30 \<and> calculateAcceleration 30 None None 30 baseline = 0
   \<and> (22::real) = sStar 10 8 baseline \<and> (1::real) / 10 \<le> 22
   \<and> calculateAcceleration 10 (Some 8) (Some 22) 30 baseline
       = maxAccel baseline * (1 - (10 / 30) ^ 4) - maxAccel baseline"
  using idm_laws [of 30 baseline 22 10 8 30]
  by (simp add: sStar_def baseline_def JAM_DISTANCE_def COMFORT_DECEL_def)

section \<open>Neighbour queries return the nearest vehicle\<close>

lemma leaderLoop_foldl:
  "leaderLoop v tln vs best =
   foldl (pickNearer (\<lambda>other. px other - px v)) best
     (filter (\<lambda>other. vid other \<noteq> vid v \<and> lane other = tln \<and> px other - px v > 0) vs)"
  by (induction vs arbitrary: best) (auto simp: pickNearer_def Let_def)

lemma followerLoop_foldl:
  "followerLoop v tln vs best =
   foldl (pickNearer (\<lambda>other. px v - px other)) best
     (filter (\<lambda>other. vid other \<noteq> vid v \<and> lane other = tln \<and> px v - px other > 0) vs)"
  by (induction vs arbitrary: best) (auto simp: pickNearer_def Let_def)

lemma arg_min_list_le: "c \<in> set cs \<Longrightarrow> f (arg_min_list f cs) \<le> (f c :: real)"
proof -
  assume c: "c \<in> set cs"
  then have "cs \<noteq> []" by auto
  then have "f (arg_min_list f cs) = Min (f ` set cs)" by (rule f_arg_min_list_f)
  also have "\<dots> \<le> f c" using c by (intro Min_le) auto
  finally show ?thesis .
qed

lemma arg_min_list_drop_second:
  "f b \<le> (f c :: real) \<Longrightarrow> arg_min_list f (b # c # cs) = arg_min_list f (b # cs)"
  by (cases cs) (auto simp: Let_def)

lemma arg_min_list_drop_first:
  assumes "f c < (f b :: real)"
  shows "arg_min_list f (b # c # cs) = arg_min_list f (c # cs)"
proof -
  have "f (arg_min_list f (c # cs)) \<le> f c"
    by (rule arg_min_list_le) simp
  with assms show ?thesis by (simp add: Let_def)
qed

lemma foldl_pickNearer_Some:
  "foldl (pickNearer f) (Some (f b, b)) cs
   = Some (f (arg_min_list f (b # cs)), arg_min_list f (b # cs))"
proof (induction cs arbitrary: b)
  case Nil
  show ?case by simp
next
  case (Cons c cs)
  show ?case
  proof (cases "f c < f b")
    case True
    then have "pickNearer f (Some (f b, b)) c = Some (f c, c)"
      by (simp add: pickNearer_def)
    with True Cons.IH [of c] show ?thesis
      by (simp add: arg_min_list_drop_first del: arg_min_list.simps)
  next
    case False
    then have "pickNearer f (Some (f b, b)) c = Some (f b, b)"
      by (simp add: pickNearer_def)
    with False Cons.IH [of b] show ?thesis
      by (simp add: arg_min_list_drop_second del: arg_min_list.simps)
  qed
qed

lemma foldl_pickNearer_None:
  "map_option snd (foldl (pickNearer f) None cs) = nearestBy f cs"
proof (cases cs)
  case Nil
  then show ?thesis by (simp add: nearestBy_def)
next
  case (Cons c cs')
  have "pickNearer f None c = Some (f c, c)" by (simp add: pickNearer_def)
  with Cons show ?thesis
    by (simp add: nearestBy_def foldl_pickNearer_Some del: arg_min_list.simps)
qed

lemma same_id_filter:
  assumes "\<forall>other\<in>set vs. vid other = vid v \<longrightarrow> other = v"
  shows "filter (\<lambda>other. vid other \<noteq> vid v \<and> P other) vs = filter (\<lambda>other. other \<noteq> v \<and> P other) vs"
  using assms by (intro filter_cong) auto

lemma arg_min_list_first:
  "cs \<noteq> [] \<Longrightarrow>
     \<exists>pre post. cs = pre @ arg_min_list f cs # post
        \<and> (\<forall>c\<in>set pre. (f (arg_min_list f cs) :: real) < f c)
        \<and> (\<forall>c\<in>set post. f (arg_min_list f cs) \<le> f c)"
proof (induction f cs rule: arg_min_list.induct)
  case (1 f x)
  show ?case by (intro exI [of _ "[]"]) simp
next
  case (2 f x y zs)
  let ?m = "arg_min_list f (y # zs)"
  from 2 obtain pre post where pp: "y # zs = pre @ ?m # post"
      "\<forall>c\<in>set pre. f ?m < f c" "\<forall>c\<in>set post. f ?m \<le> f c"
    by (metis list.discI)
  show ?case
  proof (cases "f x \<le> f ?m")
    case True
    then have am: "arg_min_list f (x # y # zs) = x" by (simp add: Let_def)
    have "\<forall>c\<in>set (y # zs). f x \<le> f c"
      using True arg_min_list_le [of _ "y # zs" f] by (meson order_trans)
    then show ?thesis unfolding am
      by (intro exI [of _ "[]"] exI [of _ "y # zs"]) simp
  next
    case False
    then have am: "arg_min_list f (x # y # zs) = ?m" by (simp add: Let_def)
    have "x # y # zs = (x # pre) @ ?m # post"
      using pp(1) by (metis append_Cons)
    moreover have "\<forall>c\<in>set (x # pre). f ?m < f c"
      using pp(2) False by auto
    ultimately show ?thesis unfolding am using pp(3) by blast
  qed
next
  case (3 f)
  then show ?case by simp
qed


lemma nearestBy_first:
  assumes "nearestBy f cs = Some c"
  shows "\<exists>pre post. cs = pre @ c # post
           \<and> (\<forall>x\<in>set pre. f c < f x) \<and> (\<forall>x\<in>set post. f c \<le> f x)"
proof -
  from assms have "cs \<noteq> []" and c: "c = arg_min_list f cs"
    by (auto simp: nearestBy_def split: if_splits)
  from arg_min_list_first [OF this(1), of f] show ?thesis
    unfolding c .
qed

text \<open>
  Claim C7, as the code has it. Provided no other vehicle of the list carries the
  identifier of \<open>v\<close>, \<open>getLeader\<close> returns the vehicle with the smallest strictly positive
  \<open>other.x - v.x\<close> among the vehicles on the target lane other than \<open>v\<close>, or nothing when
  there is none, and \<open>getFollower\<close> does the same with \<open>v.x - other.x\<close>; the target lane
  is any lane index, the lane of \<open>v\<close> or another. Of several vehicles at that smallest
  distance the one that comes first in the vehicle list is returned: every candidate before
  the result is strictly farther, every candidate after it at least as far
  (\<open>nearestBy_first\<close>).
\<close>

theorem neighbour_queries:
  assumes "\<forall>other\<in>set (vehicles m). vid other = vid v \<longrightarrow> other = v"
  shows "getLeader m v targetLane =
           nearestBy (\<lambda>other. px other - px v)
             (filter (\<lambda>other. other \<noteq> v \<and> lane other = targetLane \<and> px other - px v > 0)
                (vehicles m))
       \<and> getFollower m v targetLane =
           nearestBy (\<lambda>other. px v - px other)
             (filter (\<lambda>other. other \<noteq> v \<and> lane other = targetLane \<and> px v - px other > 0)
                (vehicles m))"
proof -
  have "getLeader m v targetLane =
           nearestBy (\<lambda>other. px other - px v)
             (filter (\<lambda>other. other \<noteq> v \<and> lane other = targetLane \<and> px other - px v > 0)
                (vehicles m))"
    unfolding getLeader_def leaderLoop_foldl foldl_pickNearer_None
    using same_id_filter [OF assms, of "\<lambda>other. lane other = targetLane \<and> px other - px v > 0"]
    by (rule arg_cong)
  moreover have "getFollower m v targetLane =
           nearestBy (\<lambda>other. px v - px other)
             (filter (\<lambda>other. other \<noteq> v \<and> lane other = targetLane \<and> px v - px other > 0)
                (vehicles m))"
    unfolding getFollower_def followerLoop_foldl foldl_pickNearer_None
    using same_id_filter [OF assms, of "\<lambda>other. lane other = targetLane \<and> px v - px other > 0"]
    by (rule arg_cong)
  ultimately show ?thesis by blast
qed


theorem neighbour_queries_witness:
  "getLeader exRoad (carAt 3 10 0 20) 0 = Some (carAt 1 50 0 20)
   \<and> getFollower exRoad (carAt 3 10 0 20) 0 = Some (carAt 4 5 0 20)"
proof -
  have h: "\<forall>other\<in>set (vehicles exRoad).
             vid other = vid (carAt 3 10 0 20) \<longrightarrow> other = carAt 3 10 0 20"
    by (simp add: exRoad_def roadWith_def carAt_def)
  from neighbour_queries [OF h, of 0] show ?thesis
    by (simp add: nearestBy_def exRoad_def roadWith_def carAt_def)
qed

text \<open>
  The claim's tie-break does not hold: the loops keep the first vehicle they meet at the
  smallest distance, whatever its identifier. Here car 2 is returned although car 1 is at
  the same distance in the same lane and has the smaller identifier.
\<close>

theorem neighbour_tie_counterexample:
  "getLeader tieRoad (carAt 3 0 0 20) 0 = Some (carAt 2 10 0 20)
   \<and> carAt 1 10 0 20 \<in> set (vehicles tieRoad)
   \<and> lane (carAt 1 10 0 20) = 0
   \<and> px (carAt 1 10 0 20) - px (carAt 3 0 0 20) = px (carAt 2 10 0 20) - px (carAt 3 0 0 20)
   \<and> vid (carAt 1 10 0 20) < vid (carAt 2 10 0 20)"
  by (simp add: getLeader_def tieRoad_def roadWith_def carAt_def)

section \<open>The lane-change loop\<close>

lemmas evalDefs =
  checkLaneChange_def laneCandidates_def tooDangerous_def totalIncentive_def
  getLeader_def getFollower_def calculateAcceleration_def sStar_def
  jamRoad_def roadWith_def newTrafficModel_def carAt_def baseline_def
  IDM_DELTA_def JAM_DISTANCE_def COMFORT_DECEL_def MOBIL_BIAS_def MOBIL_THRESHOLD_def Let_def

lemma tooDangerous_spec: "tooDangerous m veh config l = (\<not> specSafe m veh config l)"
  by (auto simp: tooDangerous_def specSafe_def Let_def split: option.splits)

lemma totalIncentive_spec:
  "l \<noteq> lane veh \<Longrightarrow>
   totalIncentive m veh a_c config l =
     (specAccNew m veh config l - a_c) + politeness config * specDeltaOld m veh config
     + specBias veh l"
  by (auto simp: totalIncentive_def specAccNew_def specDeltaOld_def specBias_def Let_def
      MOBIL_BIAS_def split: option.splits)

lemma candidateLoop_find:
  "\<forall>l\<in>set ls. l \<noteq> lane veh \<Longrightarrow>
   candidateLoop m veh a_c config ls =
     (case find (specAccepts m veh a_c config) ls of
        None \<Rightarrow> veh
      | Some l \<Rightarrow>
          veh\<lparr> lane := l, laneChangeTimer := 3,
               laneChangeDirection := (if real_of_int l > py veh then 1 else - 1) \<rparr>)"
  by (induction ls)
     (auto simp: tooDangerous_spec totalIncentive_spec specAccepts_def MOBIL_THRESHOLD_def)

lemma laneCandidates_spec:
  "lanes m = 3 \<Longrightarrow> 0 \<le> lane veh \<Longrightarrow> lane veh \<le> 2 \<Longrightarrow> laneCandidates m veh = specCandidates veh"
  by (auto simp: laneCandidates_def specCandidates_def)

lemma checkLaneChange_find:
  assumes "lanes m = 3" and "0 \<le> lane veh" and "lane veh \<le> 2"
  shows "checkLaneChange m veh a_c config =
     (case find (specAccepts m veh a_c config) (specCandidates veh) of
        None \<Rightarrow> veh
      | Some l \<Rightarrow>
          veh\<lparr> lane := l, laneChangeTimer := 3,
               laneChangeDirection := (if real_of_int l > py veh then 1 else - 1) \<rparr>)"
proof -
  have "\<forall>l\<in>set (specCandidates veh). l \<noteq> lane veh"
    by (auto simp: specCandidates_def)
  then show ?thesis
    unfolding checkLaneChange_def laneCandidates_spec [OF assms]
    by (rule candidateLoop_find)
qed

section \<open>Incident injection\<close>

lemma findIndex_None: "findIndex P xs = None \<longleftrightarrow> (\<forall>x\<in>set xs. \<not> P x)"
  by (induction xs) auto

lemma findIndex_Some:
  "findIndex P xs = Some i \<Longrightarrow> i < length xs \<and> P (xs ! i) \<and> (\<forall>j<i. \<not> P (xs ! j))"
proof (induction xs arbitrary: i)
  case Nil
  then show ?case by simp
next
  case (Cons x xs)
  show ?case
  proof (cases "P x")
    case True
    with Cons.prems show ?thesis by simp
  next
    case False
    with Cons.prems obtain k where k: "findIndex P xs = Some k" "i = Suc k"
      by auto
    from Cons.IH [OF k(1)] False k(2) show ?thesis
      by (auto simp: less_Suc_eq_0_disj)
  qed
qed

lemma findIndex_update:
  assumes "findIndex P xs = Some i" and "P y"
  shows "findIndex P (xs[i := y]) = Some i"
  using assms
proof (induction xs arbitrary: i)
  case Nil
  then show ?case by simp
next
  case (Cons x xs)
  then show ?case by (cases "P x") auto
qed

lemma findIndex_first:
  "i < length xs \<Longrightarrow> P (xs ! i) \<Longrightarrow> \<forall>j<i. \<not> P (xs ! j) \<Longrightarrow> findIndex P xs = Some i"
proof (induction xs arbitrary: i)
  case Nil
  then show ?case by simp
next
  case (Cons x xs)
  show ?case
  proof (cases i)
    case 0
    with Cons.prems show ?thesis by simp
  next
    case (Suc k)
    with Cons.prems have "\<not> P x" by auto
    moreover from Suc Cons.prems have "findIndex P xs = Some k"
      by (intro Cons.IH) auto
    ultimately show ?thesis using Suc by simp
  qed
qed

text \<open>
  Claim C5, as the code has it. \<open>triggerAccident\<close> with no vehicle on lane 1 with
  \<open>1000 < x < 4000\<close> returns the model unchanged. Otherwise it stops the first such vehicle
  of the list, marks it crashed and records lane 1 and its \<open>x\<close> as the blockage; it does
  not test for an active incident. When an incident is active and its crashed vehicle is
  the first such vehicle of the list, a further call is idempotent: the model is
  unchanged, with one crashed vehicle and one blockage record as before. A call repeated
  at once is such a call.
\<close>

theorem triggerAccident_effect:
  "((\<forall>veh\<in>set (vehicles m). \<not> (lane veh = 1 \<and> 1000 < px veh \<and> px veh < 4000))
      \<longrightarrow> triggerAccident m = m)
   \<and> (i < length (vehicles m)
        \<and> (lane (vehicles m ! i) = 1 \<and> 1000 < px (vehicles m ! i) \<and> px (vehicles m ! i) < 4000)
        \<and> (\<forall>j<i. \<not> (lane (vehicles m ! j) = 1 \<and> 1000 < px (vehicles m ! j)
                      \<and> px (vehicles m ! j) < 4000))
      \<longrightarrow> triggerAccident m =
            m\<lparr> vehicles := (vehicles m)[i := (vehicles m ! i)
                     \<lparr> speed := 0, color := ''#ef4444'', isCrashed := True \<rparr>],
               blockedLane := Some 1,
               blockedLocation := Some (px (vehicles m ! i)) \<rparr>
          \<and> (isCrashed (vehicles m ! i) \<and> speed (vehicles m ! i) = 0
               \<and> color (vehicles m ! i) = ''#ef4444''
               \<and> blockedLane m = Some 1 \<and> blockedLocation m = Some (px (vehicles m ! i))
             \<longrightarrow> triggerAccident m = m))
   \<and> triggerAccident (triggerAccident m) = triggerAccident m"
proof (intro conjI impI)
  assume "\<forall>veh\<in>set (vehicles m). \<not> (lane veh = 1 \<and> 1000 < px veh \<and> px veh < 4000)"
  then have "findIndex accidentCandidate (vehicles m) = None"
    by (simp add: findIndex_None accidentCandidate_def)
  then show "triggerAccident m = m" by (simp add: triggerAccident_def)
next
  assume a: "i < length (vehicles m)
        \<and> (lane (vehicles m ! i) = 1 \<and> 1000 < px (vehicles m ! i) \<and> px (vehicles m ! i) < 4000)
        \<and> (\<forall>j<i. \<not> (lane (vehicles m ! j) = 1 \<and> 1000 < px (vehicles m ! j)
                      \<and> px (vehicles m ! j) < 4000))"
  then have "findIndex accidentCandidate (vehicles m) = Some i"
    by (intro findIndex_first) (simp_all add: accidentCandidate_def)
  with a show eff: "triggerAccident m =
            m\<lparr> vehicles := (vehicles m)[i := (vehicles m ! i)
                     \<lparr> speed := 0, color := ''#ef4444'', isCrashed := True \<rparr>],
               blockedLane := Some 1,
               blockedLocation := Some (px (vehicles m ! i)) \<rparr>"
    by (simp add: triggerAccident_def Let_def)
  assume b: "isCrashed (vehicles m ! i) \<and> speed (vehicles m ! i) = 0
               \<and> color (vehicles m ! i) = ''#ef4444''
               \<and> blockedLane m = Some 1 \<and> blockedLocation m = Some (px (vehicles m ! i))"
  then have "(vehicles m ! i)\<lparr> speed := 0, color := ''#ef4444'', isCrashed := True \<rparr>
      = vehicles m ! i" by (intro Vehicle.equality) simp_all
  then have "(vehicles m)[i := (vehicles m ! i)
      \<lparr> speed := 0, color := ''#ef4444'', isCrashed := True \<rparr>] = vehicles m"
    by simp
  with b show "triggerAccident m = m"
    unfolding eff by (intro TrafficModel.equality) simp_all
next
  show "triggerAccident (triggerAccident m) = triggerAccident m"
  proof (cases "findIndex accidentCandidate (vehicles m)")
    case None
    then show ?thesis by (simp add: triggerAccident_def)
  next
    case (Some i)
    let ?c = "vehicles m ! i"
    let ?c' = "?c\<lparr> speed := 0, color := ''#ef4444'', isCrashed := True \<rparr>"
    from findIndex_Some [OF Some] have i: "i < length (vehicles m)" "accidentCandidate ?c"
      by auto
    then have c': "accidentCandidate ?c'" by (simp add: accidentCandidate_def)
    have m1: "triggerAccident m =
        m\<lparr> vehicles := (vehicles m)[i := ?c'], blockedLane := Some (lane ?c),
           blockedLocation := Some (px ?c) \<rparr>"
      using Some by (simp add: triggerAccident_def Let_def)
    have "findIndex accidentCandidate ((vehicles m)[i := ?c']) = Some i"
      using Some c' by (rule findIndex_update)
    then show ?thesis
      unfolding m1 using i by (simp add: triggerAccident_def Let_def)
  qed
qed

theorem triggerAccident_effect_witness:
  "triggerAccident exRoad = exRoad
   \<and> triggerAccident incidentFirst = incidentFirst
   \<and> triggerAccident incidentRoad =
       incidentRoad\<lparr> vehicles :=
           [(carAt 2 3000 1 0)\<lparr> color := ''#ef4444'', isCrashed := True \<rparr>,
            (carAt 1 2000 1 0)\<lparr> color := ''#ef4444'', isCrashed := True \<rparr>],
         blockedLocation := Some 3000 \<rparr>"
proof -
  have "\<forall>veh\<in>set (vehicles exRoad). \<not> (lane veh = 1 \<and> 1000 < px veh \<and> px veh < 4000)"
    by (simp add: exRoad_def roadWith_def carAt_def)
  with triggerAccident_effect [of exRoad] have 1: "triggerAccident exRoad = exRoad" by blast
  have "0 < length (vehicles incidentFirst)
        \<and> (lane (vehicles incidentFirst ! 0) = 1 \<and> 1000 < px (vehicles incidentFirst ! 0)
            \<and> px (vehicles incidentFirst ! 0) < 4000)
        \<and> (\<forall>j<0. \<not> (lane (vehicles incidentFirst ! j) = 1 \<and> 1000 < px (vehicles incidentFirst ! j)
                      \<and> px (vehicles incidentFirst ! j) < 4000))"
    "isCrashed (vehicles incidentFirst ! 0) \<and> speed (vehicles incidentFirst ! 0) = 0
               \<and> color (vehicles incidentFirst ! 0) = ''#ef4444''
               \<and> blockedLane incidentFirst = Some 1
               \<and> blockedLocation incidentFirst = Some (px (vehicles incidentFirst ! 0))"
    by (simp_all add: incidentFirst_def roadWith_def newTrafficModel_def carAt_def)
  with triggerAccident_effect [of incidentFirst 0]
  have 2: "triggerAccident incidentFirst = incidentFirst" by blast
  have "0 < length (vehicles incidentRoad)
        \<and> (lane (vehicles incidentRoad ! 0) = 1 \<and> 1000 < px (vehicles incidentRoad ! 0)
            \<and> px (vehicles incidentRoad ! 0) < 4000)
        \<and> (\<forall>j<0. \<not> (lane (vehicles incidentRoad ! j) = 1 \<and> 1000 < px (vehicles incidentRoad ! j)
                      \<and> px (vehicles incidentRoad ! j) < 4000))"
    by (simp add: incidentRoad_def roadWith_def newTrafficModel_def carAt_def)
  with triggerAccident_effect [of incidentRoad 0]
  have "triggerAccident incidentRoad =
            incidentRoad\<lparr> vehicles := (vehicles incidentRoad)[0 := (vehicles incidentRoad ! 0)
                     \<lparr> speed := 0, color := ''#ef4444'', isCrashed := True \<rparr>],
               blockedLane := Some 1,
               blockedLocation := Some (px (vehicles incidentRoad ! 0)) \<rparr>" by blast
  then have 3: "triggerAccident incidentRoad =
       incidentRoad\<lparr> vehicles :=
           [(carAt 2 3000 1 0)\<lparr> color := ''#ef4444'', isCrashed := True \<rparr>,
            (carAt 1 2000 1 0)\<lparr> color := ''#ef4444'', isCrashed := True \<rparr>],
         blockedLocation := Some 3000 \<rparr>"
    by (simp add: incidentRoad_def roadWith_def newTrafficModel_def carAt_def)
  from 1 2 3 show ?thesis by blast
qed


text \<open>
  With an incident active, a further call is not a no-op: it crashes car 2, the first
  eligible vehicle of the list, next to the crashed car 1, and overwrites the blockage
  record. Two vehicles are then crashed.
\<close>

theorem triggerAccident_second_incident_counterexample:
  "blockedLane incidentRoad = Some 1
   \<and> blockedLocation incidentRoad = Some 2000
   \<and> length (filter isCrashed (vehicles incidentRoad)) = 1
   \<and> triggerAccident incidentRoad \<noteq> incidentRoad
   \<and> length (filter isCrashed (vehicles (triggerAccident incidentRoad))) = 2
   \<and> blockedLocation (triggerAccident incidentRoad) = Some 3000"
  by (simp add: incidentRoad_def roadWith_def newTrafficModel_def carAt_def
      triggerAccident_def accidentCandidate_def Let_def)

section \<open>The phases of a step\<close>

lemma integrateLoop_filter_map:
  "n \<le> length vs \<Longrightarrow>
   integrateLoop dt rl n vs =
     filter (\<lambda>veh. \<not> px veh > rl) (map (integrateVehicle dt) (take n vs)) @ drop n vs"
proof (induction n arbitrary: vs)
  case 0
  show ?case by simp
next
  case (Suc i)
  then have i: "i < length vs" by simp
  let ?veh = "integrateVehicle dt (vs ! i)"
  have tk: "take (Suc i) vs = take i vs @ [vs ! i]"
    using i by (simp add: take_Suc_conv_app_nth)
  show ?case
  proof (cases "px ?veh > rl")
    case True
    have "integrateLoop dt rl (Suc i) vs = integrateLoop dt rl i (take i vs @ drop (Suc i) vs)"
      using True i by (simp add: Let_def)
    also have "\<dots> = filter (\<lambda>veh. \<not> px veh > rl) (map (integrateVehicle dt) (take i vs))
                      @ drop (Suc i) vs"
      using i by (subst Suc.IH) (simp_all add: min_def)
    finally show ?thesis using True by (simp add: tk)
  next
    case False
    have "integrateLoop dt rl (Suc i) vs = integrateLoop dt rl i (vs[i := ?veh])"
      using False by (simp add: Let_def)
    also have "\<dots> = filter (\<lambda>veh. \<not> px veh > rl) (map (integrateVehicle dt) (take i vs))
                      @ ?veh # drop (Suc i) vs"
      using i by (subst Suc.IH) (simp_all add: drop_update_cancel Cons_nth_drop_Suc [symmetric] upd_conv_take_nth_drop)
    finally show ?thesis using False by (simp add: tk)
  qed
qed

lemma integratePhase_vehicles:
  "vehicles (integratePhase dt m) =
     filter (\<lambda>veh. \<not> px veh > roadLength m) (map (integrateVehicle dt) (vehicles m))"
  by (simp add: integratePhase_def integrateLoop_filter_map)


lemma candidateLoop_cases:
  "candidateLoop m veh a config ls = veh
   \<or> (\<exists>l\<in>set ls. candidateLoop m veh a config ls =
         veh\<lparr> lane := l, laneChangeTimer := 3,
              laneChangeDirection := (if real_of_int l > py veh then 1 else - 1) \<rparr>)"
  by (induction ls) auto

lemma checkLaneChange_cases:
  "checkLaneChange m veh a config = veh
   \<or> (\<exists>l\<in>set (laneCandidates m veh). checkLaneChange m veh a config =
         veh\<lparr> lane := l, laneChangeTimer := 3,
              laneChangeDirection := (if real_of_int l > py veh then 1 else - 1) \<rparr>)"
  unfolding checkLaneChange_def by (rule candidateLoop_cases)

lemma laneCandidates_range:
  "lanes m = 3 \<Longrightarrow> 0 \<le> lane veh \<Longrightarrow> lane veh \<le> 2 \<Longrightarrow> l \<in> set (laneCandidates m veh)
   \<Longrightarrow> 0 \<le> l \<and> l \<le> 2"
  by (auto simp: laneCandidates_def split: if_splits)

lemma decideVehicle_shape:
  "i < length (vehicles m) \<Longrightarrow>
   decideVehicle rng config dt m i =
     m\<lparr> vehicles := (vehicles m)[i := decided rng config dt m i],
        draws := draws (decideVehicle rng config dt m i) \<rparr>"
  by (simp add: decided_def decideVehicle_def Let_def)

lemma decided_crashed:
  "i < length (vehicles m) \<Longrightarrow> isCrashed (vehicles m ! i) \<Longrightarrow>
   decided rng config dt m i = (vehicles m ! i)\<lparr> accel := 0, speed := 0 \<rparr>"
  by (simp add: decided_def decideVehicle_def Let_def)

lemma decided_cooling:
  "i < length (vehicles m) \<Longrightarrow> \<not> isCrashed (vehicles m ! i) \<Longrightarrow>
   0 < laneChangeTimer (vehicles m ! i) \<Longrightarrow>
   decided rng config dt m i =
     (vehicles m ! i)\<lparr> accel := accCurrentOf rng config m (vehicles m ! i),
        laneChangeTimer := laneChangeTimer (vehicles m ! i) - dt \<rparr>"
  by (simp add: decided_def decideVehicle_def Let_def)

lemma decided_checking:
  assumes "i < length (vehicles m)" "\<not> isCrashed (vehicles m ! i)"
    "laneChangeTimer (vehicles m ! i) \<le> 0"
  shows "decided rng config dt m i =
           (vehicles m ! i)\<lparr> accel := accCurrentOf rng config m (vehicles m ! i) \<rparr>
         \<or> (\<exists>l\<in>set (laneCandidates m (vehicles m ! i)).
                decided rng config dt m i =
                  (vehicles m ! i)\<lparr> accel := accCurrentOf rng config m (vehicles m ! i),
                     lane := l, laneChangeTimer := 3,
                     laneChangeDirection :=
                       (if real_of_int l > py (vehicles m ! i) then 1 else - 1) \<rparr>)"
proof -
  let ?old = "vehicles m ! i"
  let ?a = "accCurrentOf rng config m ?old"
  obtain m2 where d: "decided rng config dt m i = checkLaneChange m2 (?old\<lparr> accel := ?a \<rparr>) ?a config"
    and l: "lanes m2 = lanes m"
    using assms by (simp add: decided_def decideVehicle_def Let_def)
  have "laneCandidates m2 (?old\<lparr> accel := ?a \<rparr>) = laneCandidates m ?old"
    by (simp add: laneCandidates_def l)
  with checkLaneChange_cases [of m2 "?old\<lparr> accel := ?a \<rparr>" ?a config] d
  show ?thesis by auto
qed


lemma decideVehicle_frame:
  "i < length (vehicles m) \<Longrightarrow>
   length (vehicles (decideVehicle rng config dt m i)) = length (vehicles m)
   \<and> lanes (decideVehicle rng config dt m i) = lanes m
   \<and> roadLength (decideVehicle rng config dt m i) = roadLength m"
  by (subst (1 2 3) decideVehicle_shape) simp_all

lemma foldl_decideVehicle_all:
  assumes inv: "\<And>m' i. i < length (vehicles m') \<Longrightarrow> lanes m' = L \<Longrightarrow> P (vehicles m' ! i)
                  \<Longrightarrow> P (decided rng config dt m' i)"
  shows "\<forall>i\<in>set js. i < length (vehicles m) \<Longrightarrow> lanes m = L \<Longrightarrow>
         \<forall>veh\<in>set (vehicles m). P veh \<Longrightarrow>
         (\<forall>veh\<in>set (vehicles (foldl (decideVehicle rng config dt) m js)). P veh)
         \<and> lanes (foldl (decideVehicle rng config dt) m js) = L
         \<and> roadLength (foldl (decideVehicle rng config dt) m js) = roadLength m
         \<and> length (vehicles (foldl (decideVehicle rng config dt) m js)) = length (vehicles m)"
proof (induction js arbitrary: m)
  case Nil
  then show ?case by simp
next
  case (Cons j js)
  let ?m' = "decideVehicle rng config dt m j"
  from Cons.prems have j: "j < length (vehicles m)" by simp
  with Cons.prems have "P (vehicles m ! j)" by simp
  with inv j Cons.prems have new: "P (decided rng config dt m j)" by blast
  have vs: "vehicles ?m' = (vehicles m)[j := decided rng config dt m j]"
    by (subst decideVehicle_shape [OF j]) simp
  have "set (vehicles ?m') \<subseteq> insert (decided rng config dt m j) (set (vehicles m))"
    unfolding vs by (rule set_update_subset_insert)
  with new Cons.prems have all: "\<forall>veh\<in>set (vehicles ?m'). P veh" by blast
  from decideVehicle_frame [OF j, of rng config dt] Cons.prems
  have fr: "\<forall>i\<in>set js. i < length (vehicles ?m')" "lanes ?m' = L" "roadLength ?m' = roadLength m"
    "length (vehicles ?m') = length (vehicles m)"
    by simp_all
  from Cons.IH [OF fr(1) fr(2) all] fr(3) fr(4) show ?case by simp
qed

lemma decidePhase_all:
  assumes "\<And>m' i. i < length (vehicles m') \<Longrightarrow> lanes m' = lanes m \<Longrightarrow> P (vehicles m' ! i)
                  \<Longrightarrow> P (decided rng config dt m' i)"
    and "\<forall>veh\<in>set (vehicles m). P veh"
  shows "(\<forall>veh\<in>set (vehicles (decidePhase rng config dt m)). P veh)
         \<and> lanes (decidePhase rng config dt m) = lanes m
         \<and> roadLength (decidePhase rng config dt m) = roadLength m
         \<and> length (vehicles (decidePhase rng config dt m)) = length (vehicles m)"
  unfolding decidePhase_def
  by (rule foldl_decideVehicle_all [where L = "lanes m" and P = P]) (use assms in simp_all)

lemma decided_position_lane:
  assumes "i < length (vehicles m)" "lanes m = 3"
    and "0 \<le> px (vehicles m ! i) \<and> 0 \<le> lane (vehicles m ! i) \<and> lane (vehicles m ! i) \<le> 2"
  shows "0 \<le> px (decided rng config dt m i) \<and> 0 \<le> lane (decided rng config dt m i)
         \<and> lane (decided rng config dt m i) \<le> 2"
proof (cases "isCrashed (vehicles m ! i)")
  case True
  with assms show ?thesis by (simp add: decided_crashed)
next
  case False
  show ?thesis
  proof (cases "0 < laneChangeTimer (vehicles m ! i)")
    case True
    with False assms show ?thesis by (simp add: decided_cooling)
  next
    case False
    with \<open>\<not> isCrashed (vehicles m ! i)\<close> assms(1)
    have "decided rng config dt m i =
           (vehicles m ! i)\<lparr> accel := accCurrentOf rng config m (vehicles m ! i) \<rparr>
         \<or> (\<exists>l\<in>set (laneCandidates m (vehicles m ! i)).
                decided rng config dt m i =
                  (vehicles m ! i)\<lparr> accel := accCurrentOf rng config m (vehicles m ! i),
                     lane := l, laneChangeTimer := 3,
                     laneChangeDirection :=
                       (if real_of_int l > py (vehicles m ! i) then 1 else - 1) \<rparr>)"
      by (intro decided_checking) simp_all
    with assms laneCandidates_range [of m "vehicles m ! i"] show ?thesis
      by (elim disjE bexE) simp_all
  qed
qed

lemma decided_timer:
  assumes "i < length (vehicles m)" "0 < dt" "dt \<le> B" "- B < laneChangeTimer (vehicles m ! i)"
  shows "- B < laneChangeTimer (decided rng config dt m i)"
proof (cases "isCrashed (vehicles m ! i)")
  case True
  with assms show ?thesis by (simp add: decided_crashed)
next
  case False
  show ?thesis
  proof (cases "0 < laneChangeTimer (vehicles m ! i)")
    case True
    with False assms show ?thesis by (simp add: decided_cooling)
  next
    case False
    with \<open>\<not> isCrashed (vehicles m ! i)\<close> assms(1)
    have "decided rng config dt m i =
           (vehicles m ! i)\<lparr> accel := accCurrentOf rng config m (vehicles m ! i) \<rparr>
         \<or> (\<exists>l\<in>set (laneCandidates m (vehicles m ! i)).
                decided rng config dt m i =
                  (vehicles m ! i)\<lparr> accel := accCurrentOf rng config m (vehicles m ! i),
                     lane := l, laneChangeTimer := 3,
                     laneChangeDirection :=
                       (if real_of_int l > py (vehicles m ! i) then 1 else - 1) \<rparr>)"
      by (intro decided_checking) simp_all
    with assms show ?thesis
      by (elim disjE bexE) simp_all
  qed
qed

lemma sortPhase_frame:
  "set (vehicles (sortPhase m)) = set (vehicles m) \<and> lanes (sortPhase m) = lanes m
   \<and> roadLength (sortPhase m) = roadLength m \<and> draws (sortPhase m) = draws m"
  by (simp add: sortPhase_def)

lemma integratePhase_frame:
  "lanes (integratePhase dt m) = lanes m \<and> roadLength (integratePhase dt m) = roadLength m
   \<and> draws (integratePhase dt m) = draws m"
  by (simp add: integratePhase_def)

lemma bestLane_range: "bestLane vs \<in> {0, 1, 2}"
  by (simp add: bestLane_def)

lemma handleSpawning_vehicles:
  "vehicles (handleSpawning rng dt config m) = vehicles m
   \<or> vehicles (handleSpawning rng dt config m) =
       vehicles m @ [newVehicle rng (bestLane (vehicles m)) (truckRatio config)
                       (m\<lparr> timeSinceLastSpawn := timeSinceLastSpawn m + dt,
                           draws := draws m + 1 \<rparr>)]"
  by (simp add: handleSpawning_def spawnVehicle_def Let_def)

lemma handleSpawning_frame:
  "lanes (handleSpawning rng dt config m) = lanes m
   \<and> roadLength (handleSpawning rng dt config m) = roadLength m"
  by (simp add: handleSpawning_def spawnVehicle_def Let_def)

lemma collectStats_frame:
  "vehicles (collectStats dt m) = vehicles m \<and> lanes (collectStats dt m) = lanes m
   \<and> roadLength (collectStats dt m) = roadLength m \<and> draws (collectStats dt m) = draws m"
  by (simp add: collectStats_def Let_def)

lemma newVehicle_fields:
  "px (newVehicle rng l tr m) = 0 \<and> lane (newVehicle rng l tr m) = l
   \<and> laneChangeTimer (newVehicle rng l tr m) = 0
   \<and> (0 \<le> rng (draws m + 1) \<longrightarrow> 0 \<le> speed (newVehicle rng l tr m))"
  by (simp add: newVehicle_def Let_def)

lemma integrateVehicle_fields:
  "lane (integrateVehicle dt veh) = lane veh
   \<and> laneChangeTimer (integrateVehicle dt veh) = laneChangeTimer veh
   \<and> 0 \<le> speed (integrateVehicle dt veh)
   \<and> (0 \<le> dt \<longrightarrow> px veh \<le> px (integrateVehicle dt veh))"
  by (simp add: integrateVehicle_def Let_def)

lemma step_vehicles:
  "vehicles (step rng config m) =
     vehicles (integratePhase (DT * timeScale config)
        (decidePhase rng config (DT * timeScale config) (sortPhase m)))
   \<or> (\<exists>m'. vehicles (step rng config m) =
     vehicles (integratePhase (DT * timeScale config)
        (decidePhase rng config (DT * timeScale config) (sortPhase m)))
     @ [newVehicle rng
          (bestLane (vehicles (integratePhase (DT * timeScale config)
             (decidePhase rng config (DT * timeScale config) (sortPhase m)))))
          (truckRatio config) m'])"
proof -
  let ?dt = "DT * timeScale config"
  let ?I = "integratePhase ?dt (decidePhase rng config ?dt (sortPhase m))"
  have S: "vehicles (step rng config m) = vehicles (handleSpawning rng ?dt config ?I)"
    by (simp add: step_def Let_def collectStats_frame)
  from handleSpawning_vehicles [of rng ?dt config ?I]
  show ?thesis unfolding S by blast
qed

lemma step_all:
  assumes dec: "\<And>m' i. i < length (vehicles m') \<Longrightarrow> lanes m' = lanes m \<Longrightarrow> P (vehicles m' ! i)
                  \<Longrightarrow> P (decided rng config (DT * timeScale config) m' i)"
    and int: "\<And>veh. P veh \<Longrightarrow> \<not> roadLength m < px (integrateVehicle (DT * timeScale config) veh)
                  \<Longrightarrow> Q (integrateVehicle (DT * timeScale config) veh)"
    and new: "\<And>l m'. l \<in> {0, 1, 2} \<Longrightarrow> Q (newVehicle rng l (truckRatio config) m')"
    and pre: "\<forall>veh\<in>set (vehicles m). P veh"
  shows "\<forall>veh\<in>set (vehicles (step rng config m)). Q veh"
proof -
  let ?dt = "DT * timeScale config"
  let ?D = "decidePhase rng config ?dt (sortPhase m)"
  let ?I = "integratePhase ?dt ?D"
  have "\<forall>veh\<in>set (vehicles (sortPhase m)). P veh"
    using pre by (simp add: sortPhase_frame)
  with dec have D: "(\<forall>veh\<in>set (vehicles ?D). P veh) \<and> lanes ?D = lanes (sortPhase m)
      \<and> roadLength ?D = roadLength (sortPhase m)
      \<and> length (vehicles ?D) = length (vehicles (sortPhase m))"
    by (intro decidePhase_all) (simp_all add: sortPhase_frame)
  then have I: "\<forall>veh\<in>set (vehicles ?I). Q veh"
    using int by (auto simp: integratePhase_vehicles sortPhase_frame)
  from step_vehicles [of rng config m] show ?thesis
  proof (elim disjE exE conjE)
    assume "vehicles (step rng config m) = vehicles ?I"
    with I show ?thesis by simp
  next
    fix m' :: TrafficModel
    assume "vehicles (step rng config m) =
        vehicles ?I @ [newVehicle rng (bestLane (vehicles ?I)) (truckRatio config) m']"
    moreover have "Q (newVehicle rng (bestLane (vehicles ?I)) (truckRatio config) m')"
      by (rule new) (rule bestLane_range)
    ultimately show ?thesis using I by simp
  qed
qed

text \<open>The definitions that evaluate a step on a concrete state.\<close>

lemmas stepDefs =
  run_def step_def sortPhase_def decidePhase_def decideVehicle_def accCurrentOf_def
  perceivesNoise_def integratePhase_def integrateVehicle_def handleSpawning_def
  spawnDue_def collectStats_def getStats_def DT_def
  clearEntry_def bestLane_def lastPos_def gtInf_def spawnVehicle_def newVehicle_def

section \<open>The lane-change decision\<close>

lemma specSign_sgn: "real_of_int (specSign r) = sgn r"
  by (simp add: specSign_def sgn_if)

lemma laneCandidates_adjacent:
  "l \<in> set (laneCandidates m veh) \<Longrightarrow> l = lane veh - 1 \<or> l = lane veh + 1"
  by (auto simp: laneCandidates_def split: if_splits)

lemma decided_nearLane:
  assumes i: "i < length (vehicles m)" and dt: "0 \<le> dt" and near: "nearLane (vehicles m ! i)"
  shows "nearLaneDecided dt (decided rng config dt m i)"
proof (cases "isCrashed (vehicles m ! i)")
  case True
  with i near dt show ?thesis
    by (auto simp: decided_crashed nearLane_def nearLaneDecided_def)
next
  case False
  show ?thesis
  proof (cases "0 < laneChangeTimer (vehicles m ! i)")
    case True
    with False i have "decided rng config dt m i =
        (vehicles m ! i)\<lparr> accel := accCurrentOf rng config m (vehicles m ! i),
          laneChangeTimer := laneChangeTimer (vehicles m ! i) - dt \<rparr>"
      by (simp add: decided_cooling)
    then have f: "py (decided rng config dt m i) = py (vehicles m ! i)"
      "lane (decided rng config dt m i) = lane (vehicles m ! i)"
      "laneChangeTimer (decided rng config dt m i) = laneChangeTimer (vehicles m ! i) - dt"
      by simp_all
    from near True show ?thesis
      unfolding nearLane_def nearLaneDecided_def f by argo
  next
    case nt: False
    with near have close: "\<bar>py (vehicles m ! i) - real_of_int (lane (vehicles m ! i))\<bar> \<le> 1 / 4"
      by (auto simp: nearLane_def)
    from nt False i
    have "decided rng config dt m i =
           (vehicles m ! i)\<lparr> accel := accCurrentOf rng config m (vehicles m ! i) \<rparr>
         \<or> (\<exists>l\<in>set (laneCandidates m (vehicles m ! i)).
                decided rng config dt m i =
                  (vehicles m ! i)\<lparr> accel := accCurrentOf rng config m (vehicles m ! i),
                     lane := l, laneChangeTimer := 3,
                     laneChangeDirection :=
                       (if real_of_int l > py (vehicles m ! i) then 1 else - 1) \<rparr>)"
      by (intro decided_checking) simp_all
    then show ?thesis
    proof (elim disjE bexE)
      assume "decided rng config dt m i =
           (vehicles m ! i)\<lparr> accel := accCurrentOf rng config m (vehicles m ! i) \<rparr>"
      with close show ?thesis by (simp add: nearLaneDecided_def)
    next
      fix l
      assume l: "l \<in> set (laneCandidates m (vehicles m ! i))"
        and d: "decided rng config dt m i =
                  (vehicles m ! i)\<lparr> accel := accCurrentOf rng config m (vehicles m ! i),
                     lane := l, laneChangeTimer := 3,
                     laneChangeDirection :=
                       (if real_of_int l > py (vehicles m ! i) then 1 else - 1) \<rparr>"
      from laneCandidates_adjacent [OF l]
      have "real_of_int l = real_of_int (lane (vehicles m ! i)) - 1
          \<or> real_of_int l = real_of_int (lane (vehicles m ! i)) + 1" by auto
      with close have "\<bar>py (vehicles m ! i) - real_of_int l\<bar> \<le> 5 / 4" by argo
      with dt show ?thesis by (simp add: d nearLaneDecided_def)
    qed
  qed
qed

lemma approach_lane:
  fixes e t dt :: real
  assumes "0 \<le> dt" "dt \<le> 1 / 10" "5 / 100 < e"
    and "e \<le> 1 / 4 \<or> (- dt < t \<and> e \<le> 5 / 4 - (25 / 10) * (3 - t) + (25 / 10) * dt)"
  shows "\<bar>(25 / 10) * dt - e\<bar> \<le> 1 / 4
         \<or> (0 < t \<and> \<bar>(25 / 10) * dt - e\<bar> \<le> 5 / 4 - (25 / 10) * (3 - t))"
proof (cases "e \<le> 1 / 4 + (25 / 10) * dt")
  case True
  with assms(1-3) have "\<bar>(25 / 10) * dt - e\<bar> \<le> 1 / 4" by argo
  then show ?thesis ..
next
  case False
  with assms(1) have "\<not> e \<le> 1 / 4" by argo
  with assms(4) have b: "e \<le> 5 / 4 - (25 / 10) * (3 - t) + (25 / 10) * dt" by blast
  with False have "0 < t" by argo
  moreover from False b assms(1) have "\<bar>(25 / 10) * dt - e\<bar> \<le> 5 / 4 - (25 / 10) * (3 - t)"
    by argo
  ultimately show ?thesis by blast
qed

lemma integrateVehicle_nearLane:
  assumes "0 \<le> dt" "dt \<le> 1 / 10" "nearLaneDecided dt veh"
  shows "nearLane (integrateVehicle dt veh)"
proof (cases "\<bar>py veh - real_of_int (lane veh)\<bar> > 5 / 100")
  case False
  then show ?thesis by (simp add: integrateVehicle_def nearLane_def Let_def)
next
  case far: True
  then have iv: "py (integrateVehicle dt veh) =
      py veh + sgn (real_of_int (lane veh) - py veh) * (25 / 10) * dt"
    "lane (integrateVehicle dt veh) = lane veh"
    "laneChangeTimer (integrateVehicle dt veh) = laneChangeTimer veh"
    by (simp_all add: integrateVehicle_def Let_def)
  let ?e = "\<bar>py veh - real_of_int (lane veh)\<bar>"
  have new: "\<bar>py veh + sgn (real_of_int (lane veh) - py veh) * (25 / 10) * dt
              - real_of_int (lane veh)\<bar> = \<bar>(25 / 10) * dt - ?e\<bar>"
    using far by (cases "py veh < real_of_int (lane veh)") (simp_all add: sgn_if abs_if)
  from assms(3) have "?e \<le> 1 / 4 \<or> (- dt < laneChangeTimer veh
      \<and> ?e \<le> 5 / 4 - (25 / 10) * (3 - laneChangeTimer veh) + (25 / 10) * dt)"
    by (simp add: nearLaneDecided_def)
  from approach_lane [OF assms(1,2) far this] show ?thesis
    unfolding nearLane_def iv new .
qed

lemma foldl_decideVehicle_once:
  assumes inv: "\<And>m' i. i < length (vehicles m') \<Longrightarrow> P (vehicles m' ! i)
                  \<Longrightarrow> P' (decided rng config dt m' i)"
  shows "distinct js \<Longrightarrow> \<forall>i\<in>set js. i < length (vehicles m) \<Longrightarrow>
         \<forall>i<length (vehicles m). if i \<in> set js then P (vehicles m ! i) else P' (vehicles m ! i) \<Longrightarrow>
         \<forall>veh\<in>set (vehicles (foldl (decideVehicle rng config dt) m js)). P' veh"
proof (induction js arbitrary: m)
  case Nil
  then show ?case by (auto simp: in_set_conv_nth)
next
  case (Cons j js)
  let ?m' = "decideVehicle rng config dt m j"
  from Cons.prems have j: "j < length (vehicles m)" "j \<notin> set js" "distinct js" by simp_all
  from Cons.prems j have "P (vehicles m ! j)" by (metis list.set_intros(1))
  with inv j have new: "P' (decided rng config dt m j)" by blast
  have vs: "vehicles ?m' = (vehicles m)[j := decided rng config dt m j]"
    by (subst decideVehicle_shape [OF j(1)]) simp
  have len: "length (vehicles ?m') = length (vehicles m)" by (simp add: vs)
  have a: "\<forall>i\<in>set js. i < length (vehicles ?m')"
    using Cons.prems(2) len by simp
  have b: "\<forall>i<length (vehicles ?m').
      if i \<in> set js then P (vehicles ?m' ! i) else P' (vehicles ?m' ! i)"
  proof (intro allI impI)
    fix i assume i: "i < length (vehicles ?m')"
    show "if i \<in> set js then P (vehicles ?m' ! i) else P' (vehicles ?m' ! i)"
    proof (cases "i = j")
      case True
      with j new i show ?thesis by (simp add: vs)
    next
      case False
      with Cons.prems(3) i len have
        "if i \<in> set js then P (vehicles m ! i) else P' (vehicles m ! i)"
        by (auto split: if_splits)
      with False show ?thesis by (simp add: vs)
    qed
  qed
  from Cons.IH [OF j(3) a b] show ?case by simp
qed

lemma decidePhase_once:
  assumes "\<And>m' i. i < length (vehicles m') \<Longrightarrow> P (vehicles m' ! i)
                  \<Longrightarrow> P' (decided rng config dt m' i)"
    and "\<forall>veh\<in>set (vehicles m). P veh"
  shows "\<forall>veh\<in>set (vehicles (decidePhase rng config dt m)). P' veh"
  unfolding decidePhase_def
proof (rule foldl_decideVehicle_once [where P = P])
  show "\<forall>i<length (vehicles m).
      if i \<in> set [0..<length (vehicles m)] then P (vehicles m ! i) else P' (vehicles m ! i)"
    using assms(2) by simp
qed (use assms(1) in simp_all)

lemma step_nearLane:
  assumes "0 \<le> timeScale config" "timeScale config \<le> 6"
    and "\<forall>veh\<in>set (vehicles m). nearLane veh"
  shows "\<forall>veh\<in>set (vehicles (step rng config m)). nearLane veh"
proof -
  let ?dt = "DT * timeScale config"
  let ?D = "decidePhase rng config ?dt (sortPhase m)"
  let ?I = "integratePhase ?dt ?D"
  have dt: "0 \<le> ?dt" "?dt \<le> 1 / 10" using assms(1,2) by (simp_all add: DT_def)
  have "\<forall>veh\<in>set (vehicles (sortPhase m)). nearLane veh"
    using assms(3) by (simp add: sortPhase_frame)
  then have "\<forall>veh\<in>set (vehicles ?D). nearLaneDecided ?dt veh"
    by (rule decidePhase_once [rotated]) (rule decided_nearLane [OF _ dt(1)])
  then have I: "\<forall>veh\<in>set (vehicles ?I). nearLane veh"
    using integrateVehicle_nearLane [OF dt] by (auto simp: integratePhase_vehicles)
  have new: "nearLane (newVehicle rng l tr m')" for l tr m'
    by (simp add: nearLane_def newVehicle_def Let_def)
  from step_vehicles [of rng config m] I new show ?thesis by auto
qed

lemma triggerAccident_nearLane:
  assumes "\<forall>veh\<in>set (vehicles m). nearLane veh"
  shows "\<forall>veh\<in>set (vehicles (triggerAccident m)). nearLane veh"
proof (cases "findIndex accidentCandidate (vehicles m)")
  case None
  with assms show ?thesis by (simp add: triggerAccident_def)
next
  case (Some i)
  let ?c = "(vehicles m ! i)\<lparr> speed := 0, color := ''#ef4444'', isCrashed := True \<rparr>"
  from findIndex_Some [OF Some] have "i < length (vehicles m)" by simp
  with assms have "nearLane (vehicles m ! i)" by simp
  then have c: "nearLane ?c" by (simp add: nearLane_def)
  have "set (vehicles (triggerAccident m)) \<subseteq> insert ?c (set (vehicles m))"
    using Some by (simp add: triggerAccident_def Let_def set_update_subset_insert)
  with c assms show ?thesis by blast
qed

lemma initial_nearLane:
  "\<forall>veh\<in>set (vehicles (newTrafficModel rl)). nearLane veh"
  "\<forall>veh\<in>set (vehicles (reset m)). nearLane veh"
  by (simp_all add: newTrafficModel_def reset_def)


text \<open>
  Claim C1. Let the road have three lanes and let the vehicle be in lane 0, 1 or 2, with
  \<open>laneChangeTimer \<le> 0\<close> and its lateral coordinate as a run leaves it (\<open>nearLane\<close>: it
  holds of every spawned vehicle and is kept by every step with a time scale in
  \<open>[0, 6]\<close>, by \<open>triggerAccident\<close> and by \<open>reset\<close>, see \<open>step_nearLane\<close>,
  \<open>triggerAccident_nearLane\<close> and \<open>initial_nearLane\<close>). Then \<open>checkLaneChange\<close> looks at
  the candidates \<open>lane - 1\<close> then \<open>lane + 1\<close> (those within \<open>[0, 2]\<close>) in that order; at
  the first candidate that passes the safety criterion and whose incentive
  \<open>(a_c_new - a_c) + politeness * Delta_o + bias\<close> exceeds 0.1 it sets \<open>lane\<close> to the
  candidate, \<open>laneChangeTimer\<close> to 3 and \<open>laneChangeDirection\<close> to \<open>sign(newLane - y)\<close>,
  and looks no further; with no such candidate the vehicle is unchanged. (The step makes
  this call exactly for the vehicles that are not crashed and whose timer is not positive:
  \<open>decided_crashed\<close>, \<open>decided_cooling\<close>, \<open>decided_checking\<close>.)
\<close>

theorem checkLaneChange_first_accepted:
  assumes "lanes m = 3" and "0 \<le> lane veh" and "lane veh \<le> 2"
    and "laneChangeTimer veh \<le> 0" and "nearLane veh"
  shows "checkLaneChange m veh a_c config =
     (case find (specAccepts m veh a_c config) (specCandidates veh) of
        None \<Rightarrow> veh
      | Some l \<Rightarrow>
          veh\<lparr> lane := l, laneChangeTimer := 3,
               laneChangeDirection := specSign (real_of_int l - py veh) \<rparr>)"
proof -
  from assms(4,5) have close: "\<bar>py veh - real_of_int (lane veh)\<bar> \<le> 1 / 4"
    by (auto simp: nearLane_def)
  have dir: "(if real_of_int l > py veh then 1 else - 1) = specSign (real_of_int l - py veh)"
    if "l \<in> set (specCandidates veh)" for l
  proof -
    from that have "real_of_int l = real_of_int (lane veh) - 1
        \<or> real_of_int l = real_of_int (lane veh) + 1"
      by (auto simp: specCandidates_def split: if_splits)
    with close have "real_of_int l \<noteq> py veh" by argo
    then show ?thesis by (simp add: specSign_def)
  qed
  show ?thesis
  proof (cases "find (specAccepts m veh a_c config) (specCandidates veh)")
    case None
    then show ?thesis by (simp add: checkLaneChange_find [OF assms(1-3)])
  next
    case (Some l)
    then have "l \<in> set (specCandidates veh)" by (auto simp: find_Some_iff)
    from dir [OF this] Some show ?thesis
      by (simp add: checkLaneChange_find [OF assms(1-3)])
  qed
qed

theorem checkLaneChange_first_accepted_witness:
  "accCurrentOf (\<lambda>_. 0) baseline (jamRoad (carAt 2 0 1 0)) (carAt 2 0 1 0) = - 30
   \<and> checkLaneChange (jamRoad (carAt 2 0 1 0)) (carAt 2 0 1 0) (- 30) baseline
       = (carAt 2 0 1 0)\<lparr> lane := 0, laneChangeTimer := 3, laneChangeDirection := - 1 \<rparr>"
proof -
  have "lanes (jamRoad (carAt 2 0 1 0)) = 3" "0 \<le> lane (carAt 2 0 1 0)"
    "lane (carAt 2 0 1 0) \<le> 2" "laneChangeTimer (carAt 2 0 1 0) \<le> 0"
    "nearLane (carAt 2 0 1 0)"
    by (simp_all add: evalDefs nearLane_def)
  from checkLaneChange_first_accepted [OF this, of "- 30" baseline] show ?thesis
    by (simp add: specCandidates_def specAccepts_def specSafe_def specAccNew_def
        specDeltaOld_def specBias_def specSign_def accCurrentOf_def perceivesNoise_def
        evalDefs)
qed

text \<open>
  The same decision inside a step: on that road the sort keeps the order, the crashed car
  at index 0 is left as it is, and the loop body of phase 1 for the subject at index 1
  computes the acceleration \<open>-30\<close> and commits the change to lane 0.
\<close>

lemma jamRoad_decided:
  "sortPhase (jamRoad (carAt 2 0 1 0)) = jamRoad (carAt 2 0 1 0)
   \<and> decideVehicle (\<lambda>_. 0) baseline (1 / 60) (jamRoad (carAt 2 0 1 0)) 0
       = jamRoad (carAt 2 0 1 0)
   \<and> decided (\<lambda>_. 0) baseline (1 / 60) (jamRoad (carAt 2 0 1 0)) 1
       = (carAt 2 0 1 0)\<lparr> accel := - 30, lane := 0, laneChangeTimer := 3,
            laneChangeDirection := - 1 \<rparr>"
  by (simp add: decided_def decideVehicle_def accCurrentOf_def perceivesNoise_def
      sortPhase_def evalDefs)

section \<open>Invariants of a step\<close>

text \<open>
  Claim C6. Let the time scale be non-negative, the road length non-negative, the lane
  count 3 and every random number non-negative, and let every vehicle before the step have
  \<open>x \<ge> 0\<close> and a lane in \<open>[0, 2]\<close>. Then after \<open>step(config)\<close> every vehicle in the
  collection has \<open>v \<ge> 0\<close>, \<open>0 \<le> x \<le> roadLength\<close> and a lane in \<open>[0, 2]\<close> (and the lane
  count and road length are as before, so the property carries to the next step).
  A vehicle is removed iff its position exceeds \<open>roadLength\<close> at the end of integration:
  the integration phase leaves exactly the integrated vehicles whose \<open>x\<close> does not exceed
  \<open>roadLength\<close>, in order; the decision phase before it keeps the number of vehicles, and
  after it the step at most appends one vehicle spawned at \<open>x = 0\<close>.
\<close>

theorem step_invariants:
  assumes "0 \<le> timeScale config" and "0 \<le> roadLength m" and "lanes m = 3"
    and "\<forall>n. 0 \<le> rng n"
    and "\<forall>veh\<in>set (vehicles m). 0 \<le> px veh \<and> 0 \<le> lane veh \<and> lane veh \<le> 2"
  shows "(\<forall>veh\<in>set (vehicles (step rng config m)).
            0 \<le> speed veh \<and> 0 \<le> px veh \<and> px veh \<le> roadLength m
            \<and> 0 \<le> lane veh \<and> lane veh \<le> 2)
         \<and> lanes (step rng config m) = 3 \<and> roadLength (step rng config m) = roadLength m
         \<and> vehicles (integratePhase dt m') =
             filter (\<lambda>veh. \<not> roadLength m' < px veh)
               (map (integrateVehicle dt) (vehicles m'))
         \<and> length (vehicles (decidePhase rng config (DT * timeScale config) (sortPhase m)))
             = length (vehicles m)
         \<and> (vehicles (step rng config m) =
               vehicles (integratePhase (DT * timeScale config)
                  (decidePhase rng config (DT * timeScale config) (sortPhase m)))
             \<or> (\<exists>new. px new = 0 \<and> vehicles (step rng config m) =
                  vehicles (integratePhase (DT * timeScale config)
                     (decidePhase rng config (DT * timeScale config) (sortPhase m)))
                  @ [new]))"
proof (intro conjI)
  have dt: "0 \<le> DT * timeScale config" using assms(1) by (simp add: DT_def)
  show "\<forall>veh\<in>set (vehicles (step rng config m)).
            0 \<le> speed veh \<and> 0 \<le> px veh \<and> px veh \<le> roadLength m
            \<and> 0 \<le> lane veh \<and> lane veh \<le> 2"
  proof (rule step_all [where P = "\<lambda>veh. 0 \<le> px veh \<and> 0 \<le> lane veh \<and> lane veh \<le> 2"])
    fix m' :: TrafficModel and i
    assume "i < length (vehicles m')" "lanes m' = lanes m"
      "0 \<le> px (vehicles m' ! i) \<and> 0 \<le> lane (vehicles m' ! i) \<and> lane (vehicles m' ! i) \<le> 2"
    then show "0 \<le> px (decided rng config (DT * timeScale config) m' i)
         \<and> 0 \<le> lane (decided rng config (DT * timeScale config) m' i)
         \<and> lane (decided rng config (DT * timeScale config) m' i) \<le> 2"
      using assms(3) by (intro decided_position_lane) simp_all
  next
    fix veh :: Vehicle
    assume "0 \<le> px veh \<and> 0 \<le> lane veh \<and> lane veh \<le> 2"
      "\<not> roadLength m < px (integrateVehicle (DT * timeScale config) veh)"
    then show "0 \<le> speed (integrateVehicle (DT * timeScale config) veh)
       \<and> 0 \<le> px (integrateVehicle (DT * timeScale config) veh)
       \<and> px (integrateVehicle (DT * timeScale config) veh) \<le> roadLength m
       \<and> 0 \<le> lane (integrateVehicle (DT * timeScale config) veh)
       \<and> lane (integrateVehicle (DT * timeScale config) veh) \<le> 2"
      using integrateVehicle_fields [of "DT * timeScale config" veh] dt by simp
  next
    fix l :: int and m' :: TrafficModel
    assume "l \<in> {0, 1, 2}"
    then show "0 \<le> speed (newVehicle rng l (truckRatio config) m')
       \<and> 0 \<le> px (newVehicle rng l (truckRatio config) m')
       \<and> px (newVehicle rng l (truckRatio config) m') \<le> roadLength m
       \<and> 0 \<le> lane (newVehicle rng l (truckRatio config) m')
       \<and> lane (newVehicle rng l (truckRatio config) m') \<le> 2"
      using newVehicle_fields [of rng l "truckRatio config" m'] assms(2,4) by auto
  next
    show "\<forall>veh\<in>set (vehicles m). 0 \<le> px veh \<and> 0 \<le> lane veh \<and> lane veh \<le> 2"
      by (rule assms(5))
  qed
next
  show "vehicles (integratePhase dt m') =
             filter (\<lambda>veh. \<not> roadLength m' < px veh)
               (map (integrateVehicle dt) (vehicles m'))"
    by (rule integratePhase_vehicles)
next
  have "length (vehicles (decidePhase rng config (DT * timeScale config) (sortPhase m)))
      = length (vehicles (sortPhase m))"
    using decidePhase_all [of "sortPhase m" "\<lambda>_. True" rng config "DT * timeScale config"]
    by simp
  then show "length (vehicles (decidePhase rng config (DT * timeScale config) (sortPhase m)))
      = length (vehicles m)"
    by (simp add: sortPhase_def)
next
  from step_vehicles [of rng config m]
  show "vehicles (step rng config m) =
               vehicles (integratePhase (DT * timeScale config)
                  (decidePhase rng config (DT * timeScale config) (sortPhase m)))
             \<or> (\<exists>new. px new = 0 \<and> vehicles (step rng config m) =
                  vehicles (integratePhase (DT * timeScale config)
                     (decidePhase rng config (DT * timeScale config) (sortPhase m)))
                  @ [new])"
    using newVehicle_fields by blast
next
  have "lanes (step rng config m) = lanes m \<and> roadLength (step rng config m) = roadLength m"
    using decidePhase_all [of "sortPhase m" "\<lambda>_. True" rng config "DT * timeScale config"]
    by (simp add: step_def Let_def collectStats_frame handleSpawning_frame
        integratePhase_frame sortPhase_frame)
  with assms(3) show "lanes (step rng config m) = 3"
    and "roadLength (step rng config m) = roadLength m" by simp_all
qed

theorem step_invariants_witness:
  "list_all (\<lambda>veh. 0 \<le> speed veh \<and> 0 \<le> px veh \<and> px veh \<le> 5000
                    \<and> 0 \<le> lane veh \<and> lane veh \<le> 2)
     (vehicles (step (\<lambda>_. 0) baseline exRoad))
   \<and> length (vehicles (decidePhase (\<lambda>_. 0) baseline (DT * timeScale baseline)
         (sortPhase exRoad))) = 4"
proof -
  have "0 \<le> timeScale baseline" "0 \<le> roadLength exRoad" "lanes exRoad = 3"
    "\<forall>n::nat. (0::real) \<le> (\<lambda>_. 0) n"
    "\<forall>veh\<in>set (vehicles exRoad). 0 \<le> px veh \<and> 0 \<le> lane veh \<and> lane veh \<le> 2"
    by (simp_all add: baseline_def exRoad_def roadWith_def newTrafficModel_def carAt_def)
  from step_invariants [OF this] show ?thesis
    by (simp add: list_all_iff exRoad_def roadWith_def newTrafficModel_def)
qed


section \<open>The lane-change cooldown\<close>

text \<open>
  Claim C3, as the code has it. For a step with positive time scale whose length
  \<open>DT * timeScale\<close> is at most \<open>B\<close>: if every vehicle has \<open>laneChangeTimer > -B\<close> before
  the step (as every vehicle with a non-negative timer has), every vehicle has
  \<open>laneChangeTimer > -B\<close> after it. The cooldown can fall below 0 by less than one step.
\<close>

theorem timer_lower_bound:
  assumes "0 < timeScale config" and "DT * timeScale config \<le> B"
    and "\<forall>veh\<in>set (vehicles m). - B < laneChangeTimer veh"
  shows "\<forall>veh\<in>set (vehicles (step rng config m)). - B < laneChangeTimer veh"
proof (rule step_all [where P = "\<lambda>veh. - B < laneChangeTimer veh"])
  have dt: "0 < DT * timeScale config" using assms(1) by (simp add: DT_def)
  fix m' :: TrafficModel and i
  assume "i < length (vehicles m')" "- B < laneChangeTimer (vehicles m' ! i)"
  with dt assms(2) show "- B < laneChangeTimer (decided rng config (DT * timeScale config) m' i)"
    by (intro decided_timer) simp_all
next
  fix veh :: Vehicle
  assume "- B < laneChangeTimer veh"
  then show "- B < laneChangeTimer (integrateVehicle (DT * timeScale config) veh)"
    by (simp add: integrateVehicle_fields)
next
  fix l :: int and m' :: TrafficModel
  have "0 < DT * timeScale config" using assms(1) by (simp add: DT_def)
  with assms(2) show "- B < laneChangeTimer (newVehicle rng l (truckRatio config) m')"
    by (simp add: newVehicle_fields)
next
  show "\<forall>veh\<in>set (vehicles m). - B < laneChangeTimer veh" by (rule assms(3))
qed


theorem timer_lower_bound_witness:
  "list_all (\<lambda>veh. - (1 / 12) < laneChangeTimer veh)
     (vehicles (step (\<lambda>_. 0) slowInflow coolingRoad))"
proof -
  have "0 < timeScale slowInflow" "DT * timeScale slowInflow \<le> 1 / 12"
    "\<forall>veh\<in>set (vehicles coolingRoad). - (1 / 12) < laneChangeTimer veh"
    by (simp_all add: slowInflow_def baseline_def DT_def coolingRoad_def roadWith_def carAt_def)
  from timer_lower_bound [OF this] show ?thesis
    by (simp add: list_all_iff)
qed

text \<open>
  The cooldown does become negative. A car whose timer was set to 3 s by a lane change is
  stepped 38 times at 0.08 s per step: after 37 steps the timer is 0.04 s, still positive,
  so step 38 subtracts once more and leaves -0.04 s.
\<close>

theorem timer_negative_counterexample:
  "0 < timeScale slowInflow
   \<and> map laneChangeTimer (vehicles coolingRoad) = [3]
   \<and> map laneChangeTimer
        (vehicles (run (\<lambda>_. 0) (replicate 38 slowInflow) coolingRoad)) = [- (1 / 25)]"
  by (simp add: stepDefs evalDefs slowInflow_def coolingRoad_def numeral_eq_Suc)


section \<open>Spawning\<close>

lemma gtInf_foldl_min:
  "gtInf (map_option px
       (foldl (\<lambda>prev curr. case prev of None \<Rightarrow> Some curr
                 | Some p \<Rightarrow> (if px p < px curr then Some p else Some curr)) prev ws))
     (Some c)
   \<longleftrightarrow> (case prev of None \<Rightarrow> True | Some p \<Rightarrow> c < px p) \<and> (\<forall>w\<in>set ws. c < px w)"
  by (induction ws arbitrary: prev) (auto simp: gtInf_def split: option.splits)

lemma gtInf_lastPos:
  "gtInf (lastPos vs l) (Some c) \<longleftrightarrow> (\<forall>veh\<in>set vs. lane veh = l \<longrightarrow> c < px veh)"
  unfolding lastPos_def gtInf_foldl_min by auto

lemma gtInf_cases:
  "gtInf a (Some c) \<Longrightarrow> \<not> gtInf b (Some c) \<Longrightarrow> gtInf a b"
  "gtInf a b \<Longrightarrow> gtInf b (Some c) \<Longrightarrow> gtInf a (Some c)"
  by (auto simp: gtInf_def split: option.splits)

lemma bestLane_cases:
  "bestLane vs = 0 \<and> gtInf (lastPos vs 0) (lastPos vs 1) \<and> gtInf (lastPos vs 0) (lastPos vs 2)
   \<or> bestLane vs = 1 \<and> \<not> gtInf (lastPos vs 0) (lastPos vs 1) \<and> gtInf (lastPos vs 1) (lastPos vs 2)
   \<or> bestLane vs = 2 \<and> gtInf (lastPos vs 0) (lastPos vs 1) \<and> \<not> gtInf (lastPos vs 0) (lastPos vs 2)
   \<or> bestLane vs = 2 \<and> \<not> gtInf (lastPos vs 0) (lastPos vs 1) \<and> \<not> gtInf (lastPos vs 1) (lastPos vs 2)"
  by (simp add: bestLane_def)

lemma gtInf_not_trans:
  "\<not> gtInf a b \<Longrightarrow> \<not> gtInf b (Some c) \<Longrightarrow> \<not> gtInf a (Some c)"
  by (auto simp: gtInf_def split: option.splits)

lemma bestLane_clear:
  "gtInf (lastPos vs (bestLane vs)) (Some c)
   \<longleftrightarrow> (\<exists>l\<in>{0, 1, 2}. gtInf (lastPos vs l) (Some c))"
proof
  assume "gtInf (lastPos vs (bestLane vs)) (Some c)"
  then show "\<exists>l\<in>{0, 1, 2}. gtInf (lastPos vs l) (Some c)"
    using bestLane_range [of vs] by blast
next
  assume "\<exists>l\<in>{0, 1, 2}. gtInf (lastPos vs l) (Some c)"
  then consider "gtInf (lastPos vs 0) (Some c)" | "gtInf (lastPos vs 1) (Some c)"
    | "gtInf (lastPos vs 2) (Some c)" by auto
  then show "gtInf (lastPos vs (bestLane vs)) (Some c)"
  proof cases
    case 1
    with bestLane_cases [of vs] show ?thesis
      by (metis gtInf_not_trans)
  next
    case 2
    with bestLane_cases [of vs] show ?thesis
      by (metis gtInf_not_trans gtInf_cases(2))
  next
    case 3
    with bestLane_cases [of vs] show ?thesis
      by (metis gtInf_cases(2))
  qed
qed

lemma clearEntry_iff:
  "clearEntry vs \<longleftrightarrow> (\<exists>l\<in>{0, 1, 2}. \<forall>veh\<in>set vs. lane veh = l \<longrightarrow> 40 < px veh)"
  using bestLane_clear [of vs 40] by (simp add: clearEntry_def gtInf_lastPos)


lemma foldl_min_Some:
  "foldl (\<lambda>prev curr. case prev of None \<Rightarrow> Some curr
                 | Some p \<Rightarrow> (if px p < px curr then Some p else Some curr)) (Some p0) ws = Some r
   \<Longrightarrow> r \<in> set (p0 # ws) \<and> (\<forall>w\<in>set (p0 # ws). px r \<le> px w)"
proof (induction ws arbitrary: p0)
  case Nil
  then show ?case by simp
next
  case (Cons w ws)
  show ?case
  proof (cases "px p0 < px w")
    case True
    with Cons.prems Cons.IH [of p0] show ?thesis by force
  next
    case False
    with Cons.prems Cons.IH [of w] show ?thesis by force
  qed
qed

lemma lastPos_minimum:
  "lastPos vs l = None \<longleftrightarrow> (\<forall>veh\<in>set vs. lane veh \<noteq> l)"
  "lastPos vs l = Some x \<Longrightarrow>
     (\<exists>veh\<in>set vs. lane veh = l \<and> px veh = x) \<and> (\<forall>veh\<in>set vs. lane veh = l \<longrightarrow> x \<le> px veh)"
proof -
  let ?g = "\<lambda>prev curr. case prev of None \<Rightarrow> Some curr
                 | Some p \<Rightarrow> (if px p < px curr then Some p else Some curr)"
  let ?ws = "filter (\<lambda>veh. lane veh = l) vs"
  have some: "foldl ?g (Some p0) ws \<noteq> None" for p0 :: Vehicle and ws
    by (induction ws arbitrary: p0) auto
  show "lastPos vs l = None \<longleftrightarrow> (\<forall>veh\<in>set vs. lane veh \<noteq> l)"
  proof (cases ?ws)
    case Nil
    then show ?thesis by (simp add: lastPos_def filter_empty_conv)
  next
    case (Cons w ws)
    then have "w \<in> set ?ws" by simp
    then have "\<exists>veh\<in>set vs. lane veh = l" by auto
    with Cons some [of w ws] show ?thesis by (auto simp: lastPos_def)
  qed
  show "(\<exists>veh\<in>set vs. lane veh = l \<and> px veh = x) \<and> (\<forall>veh\<in>set vs. lane veh = l \<longrightarrow> x \<le> px veh)"
    if "lastPos vs l = Some x"
  proof (cases ?ws)
    case Nil
    with that show ?thesis by (simp add: lastPos_def)
  next
    case (Cons w ws)
    with that obtain r where r: "foldl ?g (Some w) ws = Some r" "px r = x"
      by (auto simp: lastPos_def)
    from foldl_min_Some [OF r(1)] Cons
    have "r \<in> set ?ws" "\<forall>v\<in>set ?ws. px r \<le> px v" by simp_all
    with r(2) show ?thesis by auto
  qed
qed

lemma bestLane_max:
  "l \<in> {0, 1, 2} \<Longrightarrow> \<not> gtInf (lastPos vs l) (lastPos vs (bestLane vs))"
  using bestLane_cases [of vs]
  by (cases "lastPos vs 0"; cases "lastPos vs 1"; cases "lastPos vs 2")
     (auto simp: gtInf_def)

text \<open>
  Claim C8. On a spawn attempt (the arrival test of \<open>handleSpawning\<close> holds; inflow
  positive, random number non-negative), \<open>timeSinceLastSpawn\<close> is reset to 0 if and only
  if a vehicle is spawned, which happens exactly when some lane has all its vehicles
  beyond 40 m (the lane chosen by \<open>bestLane\<close> is then such a lane: \<open>lastPos\<close> is the
  minimum \<open>x\<close> of a lane, \<open>lastPos_minimum\<close>, and no lane has a larger one than the
  chosen lane, \<open>bestLane_max\<close>). Otherwise the attempt only advances the timer and the random
  source, so the timer is not reset; the attempt is due again at the next step whenever
  the next random factor is not larger.
\<close>

theorem spawn_attempt:
  assumes "spawnDue rng dt config m" and "0 < inflowRate config" and "0 \<le> rng (draws m)"
  shows
    "(let clear = (\<exists>l\<in>{0, 1, 2}. \<forall>veh\<in>set (vehicles m). lane veh = l \<longrightarrow> 40 < px veh);
          m1 = m\<lparr> timeSinceLastSpawn := timeSinceLastSpawn m + dt, draws := draws m + 1 \<rparr>;
          m' = handleSpawning rng dt config m
      in (timeSinceLastSpawn m' = 0 \<longleftrightarrow> clear)
         \<and> (clear \<longrightarrow>
               vehicles m' =
                 vehicles m @ [newVehicle rng (bestLane (vehicles m)) (truckRatio config) m1])
         \<and> (\<not> clear \<longrightarrow> m' = m1)
         \<and> (\<not> clear \<and> 0 \<le> dt' \<and> rng (draws m + 1) \<le> rng (draws m)
               \<longrightarrow> spawnDue rng dt' config m'))"
proof -
  let ?clear = "\<exists>l\<in>{0, 1, 2}. \<forall>veh\<in>set (vehicles m). lane veh = l \<longrightarrow> 40 < px veh"
  let ?m1 = "m\<lparr> timeSinceLastSpawn := timeSinceLastSpawn m + dt, draws := draws m + 1 \<rparr>"
  let ?tau = "1 / (inflowRate config / 3600)"
  have tau: "0 < ?tau" using assms(2) by simp
  have due: "(rng (draws m) * (4 / 10) + 8 / 10) * ?tau < timeSinceLastSpawn m + dt"
    using assms(1,2) by (simp add: spawnDue_def Let_def)
  have "0 < (rng (draws m) * (4 / 10) + 8 / 10) * ?tau"
    using assms(3) tau by (intro mult_pos_pos) simp_all
  with due have pos: "timeSinceLastSpawn m + dt \<noteq> 0" by simp
  have ce: "clearEntry (vehicles m) \<longleftrightarrow> ?clear" by (rule clearEntry_iff)
  have yes: "handleSpawning rng dt config m =
      (spawnVehicle rng (bestLane (vehicles m)) (truckRatio config) config ?m1)
        \<lparr> timeSinceLastSpawn := 0 \<rparr>" if "?clear"
  proof -
    from that ce have "clearEntry (vehicles m)" by blast
    with assms(1) show ?thesis by (simp add: handleSpawning_def Let_def)
  qed
  have no: "handleSpawning rng dt config m = ?m1" if "\<not> ?clear"
  proof -
    from that ce have "\<not> clearEntry (vehicles m)" by blast
    with assms(1) show ?thesis by (simp add: handleSpawning_def Let_def)
  qed
  have retry: "spawnDue rng dt' config ?m1"
    if "0 \<le> dt'" "rng (draws m + 1) \<le> rng (draws m)"
  proof -
    have "(rng (draws m + 1) * (4 / 10) + 8 / 10) * ?tau
        \<le> (rng (draws m) * (4 / 10) + 8 / 10) * ?tau"
      using that(2) tau by (intro mult_right_mono) simp_all
    with due that(1) assms(2) show ?thesis
      by (simp add: spawnDue_def Let_def)
  qed
  show ?thesis
  proof (cases ?clear)
    case True
    from yes [OF True] True show ?thesis
      unfolding Let_def by (simp add: spawnVehicle_def)
  next
    case False
    from no [OF False] False pos retry show ?thesis
      unfolding Let_def by simp
  qed
qed


theorem spawn_attempt_witness:
  "timeSinceLastSpawn (handleSpawning (\<lambda>_. 0) (1 / 60) baseline entryClear) = 0
   \<and> length (vehicles (handleSpawning (\<lambda>_. 0) (1 / 60) baseline entryClear)) = 5
   \<and> handleSpawning (\<lambda>_. 0) (1 / 60) baseline entryBlocked
       = entryBlocked\<lparr> timeSinceLastSpawn := 2 + 1 / 60, draws := 1 \<rparr>
   \<and> spawnDue (\<lambda>_. 0) (1 / 60) baseline
        (handleSpawning (\<lambda>_. 0) (1 / 60) baseline entryBlocked)"
proof -
  have c: "spawnDue (\<lambda>_. 0) (1 / 60) baseline entryClear" "0 < inflowRate baseline"
    "(0::real) \<le> (\<lambda>_. 0) (draws entryClear)"
    by (simp_all add: spawnDue_def baseline_def entryClear_def exRoad_def roadWith_def
        newTrafficModel_def)
  have b: "spawnDue (\<lambda>_. 0) (1 / 60) baseline entryBlocked" "0 < inflowRate baseline"
    "(0::real) \<le> (\<lambda>_. 0) (draws entryBlocked)"
    by (simp_all add: spawnDue_def baseline_def entryBlocked_def roadWith_def
        newTrafficModel_def)
  have cl: "\<exists>l\<in>{0, 1, 2}. \<forall>veh\<in>set (vehicles entryClear). lane veh = l \<longrightarrow> 40 < px veh"
    by (simp add: entryClear_def exRoad_def roadWith_def carAt_def)
  have bl: "\<not> (\<exists>l\<in>{0, 1, 2}. \<forall>veh\<in>set (vehicles entryBlocked). lane veh = l \<longrightarrow> 40 < px veh)"
    by (simp add: entryBlocked_def roadWith_def carAt_def)
  have len: "length (vehicles entryClear) = 4"
    by (simp add: entryClear_def exRoad_def roadWith_def)
  have m1: "entryBlocked\<lparr> timeSinceLastSpawn := timeSinceLastSpawn entryBlocked + 1 / 60,
                draws := draws entryBlocked + 1 \<rparr>
      = entryBlocked\<lparr> timeSinceLastSpawn := 2 + 1 / 60, draws := 1 \<rparr>"
    by (simp add: entryBlocked_def roadWith_def newTrafficModel_def)
  from spawn_attempt [OF c, of 0] cl
  have "timeSinceLastSpawn (handleSpawning (\<lambda>_. 0) (1 / 60) baseline entryClear) = 0
    \<and> (\<exists>new. vehicles (handleSpawning (\<lambda>_. 0) (1 / 60) baseline entryClear)
           = vehicles entryClear @ [new])"
    unfolding Let_def by blast
  with len
  have "timeSinceLastSpawn (handleSpawning (\<lambda>_. 0) (1 / 60) baseline entryClear) = 0
    \<and> length (vehicles (handleSpawning (\<lambda>_. 0) (1 / 60) baseline entryClear)) = 5"
    by auto
  moreover from spawn_attempt [OF b, of "1 / 60"] bl
  have "handleSpawning (\<lambda>_. 0) (1 / 60) baseline entryBlocked
       = entryBlocked\<lparr> timeSinceLastSpawn := timeSinceLastSpawn entryBlocked + 1 / 60,
                draws := draws entryBlocked + 1 \<rparr>"
    unfolding Let_def by blast
  moreover have ar: "(0::real) \<le> 1 / 60" "(0::real) \<le> 0" by simp_all
  from spawn_attempt [OF b, of "1 / 60"] bl ar
  have "spawnDue (\<lambda>_. 0) (1 / 60) baseline
        (handleSpawning (\<lambda>_. 0) (1 / 60) baseline entryBlocked)"
    unfolding Let_def by blast
  ultimately show ?thesis unfolding m1 by blast
qed

section \<open>Reset\<close>

text \<open>
  Claim C10. \<open>reset\<close> empties the vehicle list and the ring of fundamental-diagram samples,
  clears \<open>blockedLane\<close> and \<open>blockedLocation\<close>, sets \<open>nextId\<close> to 1 and
  \<open>timeSinceLastSpawn\<close> to 0, and leaves \<open>statsTimer\<close> (and the road) as it was. So a
  sample can be appended less than one simulated second after a reset: from a road whose
  \<open>statsTimer\<close> stood at 0.03 s, twelve steps of 4.9/60 s (0.98 s in all) after the reset
  spawn a vehicle and append the first sample.
\<close>

theorem reset_keeps_statsTimer:
  "vehicles (reset m) = [] \<and> fdPoints (reset m) = []
   \<and> blockedLane (reset m) = None \<and> blockedLocation (reset m) = None
   \<and> nextId (reset m) = 1 \<and> timeSinceLastSpawn (reset m) = 0
   \<and> statsTimer (reset m) = statsTimer m
   \<and> roadLength (reset m) = roadLength m \<and> lanes (reset m) = lanes m
   \<and> statsTimer (reset staleRoad) = 3 / 100
   \<and> 12 * (DT * timeScale fastInflow) < 1
   \<and> fdPoints (run (\<lambda>_. 0) (replicate 11 fastInflow) (reset staleRoad)) = []
   \<and> length (fdPoints (run (\<lambda>_. 0) (replicate 12 fastInflow) (reset staleRoad))) = 1"
  by (simp add: run_def reset_def staleRoad_def roadWith_def newTrafficModel_def
      step_def sortPhase_def decidePhase_def integratePhase_def handleSpawning_def
      spawnDue_def collectStats_def getStats_def fastInflow_def baseline_def DT_def Let_def
      clearEntry_def bestLane_def lastPos_def gtInf_def spawnVehicle_def newVehicle_def decideVehicle_def accCurrentOf_def perceivesNoise_def numeral_eq_Suc)

end
